theory Spec2Isabelle
  imports Main "HOL-Library.Multiset" "HOL-Library.Sublist"
begin

section \<open>The repository scraper of \<^verbatim>\<open>src/main.py\<close>\<close>

text \<open>
  The program is a class \<^verbatim>\<open>GitHubAPI\<close> with five methods and a module-level script.
  Everything it does to the outside (HTTP requests, opening the zip archive, printing,
  writing \<^verbatim>\<open>scraped.txt\<close>) is made explicit: the network and the archive reader are
  parameters collected in a record \<open>world\<close>, every method returns its result together with
  the list of URLs it requested, and every exception of the source is a value of
  \<open>py_error\<close> on the left of a sum.
\<close>

subsection \<open>Exceptions\<close>

text \<open>
  The exceptions the source can meet. \<open>HTTPError\<close> is what
  \<^verbatim>\<open>response.raise_for_status()\<close> raises (it carries the status code);
  \<open>RequestException\<close> stands for every other exception of the HTTP library's hierarchy
  (connection errors, timeouts, too many redirects); \<open>OtherException\<close> is any exception
  outside that hierarchy.
\<close>

datatype py_error =
    IndexError
  | KeyError string
  | HTTPError nat
  | RequestException string
  | BadZipFile
  | OtherException string

text \<open>
  \<^verbatim>\<open>except requests.exceptions.RequestException\<close>: the handler matches the class and its
  subclasses, of which \<^verbatim>\<open>HTTPError\<close> is one.
\<close>

fun is_RequestException :: "py_error \<Rightarrow> bool" where
  "is_RequestException (HTTPError _) = True"
| "is_RequestException (RequestException _) = True"
| "is_RequestException _ = False"

subsection \<open>Responses and the outside world\<close>

text \<open>
  A \<^verbatim>\<open>requests.Response\<close> as far as the program reads it: \<^verbatim>\<open>status_code\<close>,
  \<^verbatim>\<open>headers[...]\<close> (the lookup of a header by name), \<^verbatim>\<open>text\<close> and \<^verbatim>\<open>content\<close>.
\<close>

record response =
  status_code :: nat
  headers :: "string \<rightharpoonup> string"
  rtext :: string
  content :: string

text \<open>
  \<^verbatim>\<open>Response.raise_for_status()\<close> of the HTTP library: it raises \<^verbatim>\<open>HTTPError\<close> for the
  client-error and server-error statuses, 400 to 599, and returns for every other status.
\<close>

definition raise_for_status :: "response \<Rightarrow> py_error + unit" where
  "raise_for_status r =
     (if 400 \<le> status_code r \<and> status_code r < 600 then Inl (HTTPError (status_code r))
      else Inr ())"

text \<open>
  The environment of one run. \<open>session_get\<close> is \<^verbatim>\<open>self.session.get\<close>, \<open>requests_get\<close> is
  \<^verbatim>\<open>requests.get\<close>: a fixed mapping from each URL to what the request gives, a response
  or an exception. \<open>zip_filenames\<close> is
  \<^verbatim>\<open>[i.filename for i in ZipFile(BytesIO(content)).infolist()]\<close>, which raises on a
  malformed archive. \<open>completion_order n\<close> is the order in which \<open>n\<close> submitted futures
  complete, as positions in the submission list; \<^verbatim>\<open>as_completed\<close> yields every future
  once, so it is a permutation of \<open>[0..<n]\<close>. \<open>elapsed\<close> is the formatted wall-clock time
  and \<open>str_exc\<close> is \<^verbatim>\<open>str(e)\<close>.
\<close>

record world =
  session_get :: "string \<Rightarrow> py_error + response"
  requests_get :: "string \<Rightarrow> py_error + response"
  zip_filenames :: "string \<Rightarrow> py_error + string list"
  completion_order :: "nat \<Rightarrow> nat list"
  elapsed :: string
  str_exc :: "py_error \<Rightarrow> string"

subsection \<open>Python's string and list operations\<close>

text \<open>\<^verbatim>\<open>s.split(sep)\<close> for a one-character separator: never the empty list.\<close>

fun py_split :: "char \<Rightarrow> string \<Rightarrow> string list" where
  "py_split c [] = [[]]"
| "py_split c (x # xs) =
     (if x = c then [] # py_split c xs
      else (case py_split c xs of
              [] \<Rightarrow> [[x]]
            | p # ps \<Rightarrow> (x # p) # ps))"

text \<open>\<^verbatim>\<open>sep.join(parts)\<close>.\<close>

fun py_join :: "string \<Rightarrow> string list \<Rightarrow> string" where
  "py_join sep [] = []"
| "py_join sep [p] = p"
| "py_join sep (p # q # ps) = p @ sep @ py_join sep (q # ps)"

text \<open>\<^verbatim>\<open>s.endswith(ext)\<close>; true for the empty \<open>ext\<close>.\<close>

definition endswith :: "string \<Rightarrow> string \<Rightarrow> bool" where
  "endswith s ext \<longleftrightarrow>
     length ext \<le> length s \<and> drop (length s - length ext) s = ext"

text \<open>\<^verbatim>\<open>xs.pop(0)\<close>: the list without its first item; IndexError on the empty list.\<close>

definition pop0 :: "'a list \<Rightarrow> py_error + 'a list" where
  "pop0 xs = (case xs of [] \<Rightarrow> Inl IndexError | _ # ys \<Rightarrow> Inr ys)"

text \<open>\<^verbatim>\<open>xs[-1]\<close>: the last item; IndexError on the empty list.\<close>

definition last_item :: "'a list \<Rightarrow> py_error + 'a" where
  "last_item xs = (if xs = [] then Inl IndexError else Inr (last xs))"

definition newline :: char where
  "newline = CHR 0x0A"

definition dquote :: char where
  "dquote = CHR 0x22"

subsection \<open>The class\<close>

record GitHubAPI =
  owner :: string
  repo :: string
  allowed_extensions :: "string list"

definition BASE_URL :: string where
  "BASE_URL = ''https://api.github.com''"

text \<open>\<^verbatim>\<open>__init__\<close>: the allow-list defaults to \<^verbatim>\<open>[".md"]\<close>.\<close>

definition init_GitHubAPI :: "string \<Rightarrow> string \<Rightarrow> string list option \<Rightarrow> GitHubAPI" where
  "init_GitHubAPI repository_owner repository_name exts =
     \<lparr> owner = repository_owner, repo = repository_name,
       allowed_extensions = (case exts of None \<Rightarrow> [''.md''] | Some es \<Rightarrow> es) \<rparr>"

text \<open>
  \<^verbatim>\<open>_make_request\<close>: one GET through the session, then \<^verbatim>\<open>raise_for_status\<close>. The second
  component is the list of URLs requested.
\<close>

definition make_request :: "world \<Rightarrow> string \<Rightarrow> (py_error + response) \<times> string list" where
  "make_request w url =
     (case session_get w url of
        Inl e \<Rightarrow> (Inl e, [url])
      | Inr response \<Rightarrow>
          (case raise_for_status response of
             Inl e \<Rightarrow> (Inl e, [url])
           | Inr _ \<Rightarrow> (Inr response, [url])))"

definition zipball_url :: "GitHubAPI \<Rightarrow> string" where
  "zipball_url g = BASE_URL @ ''/repos/'' @ owner g @ ''/'' @ repo g @ ''/zipball/main''"

text \<open>
  \<^verbatim>\<open>get_archive_url\<close>. \<^verbatim>\<open>response.headers['Location']\<close> raises KeyError when the
  response has no such header.
\<close>

definition get_archive_url :: "world \<Rightarrow> GitHubAPI \<Rightarrow> (py_error + string) \<times> string list" where
  "get_archive_url w g =
     (let url = zipball_url g in
      case make_request w url of
        (Inl e, reqs) \<Rightarrow> (Inl e, reqs)
      | (Inr response, reqs) \<Rightarrow>
          if status_code response = 302 then
            (case headers response ''Location'' of
               None \<Rightarrow> (Inl (KeyError ''Location''), reqs)
             | Some redirect_url \<Rightarrow> (Inr redirect_url, reqs))
          else (Inr url, reqs))"

text \<open>\<^verbatim>\<open>get_all_file_paths\<close>.\<close>

definition get_all_file_paths :: "world \<Rightarrow> GitHubAPI \<Rightarrow> (py_error + string list) \<times> string list" where
  "get_all_file_paths w g =
     (case get_archive_url w g of
        (Inl e, reqs) \<Rightarrow> (Inl e, reqs)
      | (Inr archive_url, reqs) \<Rightarrow>
          (case make_request w archive_url of
             (Inl e, reqs') \<Rightarrow> (Inl e, reqs @ reqs')
           | (Inr response, reqs') \<Rightarrow>
               (case zip_filenames w (content response) of
                  Inl e \<Rightarrow> (Inl e, reqs @ reqs')
                | Inr names \<Rightarrow> (Inr names, reqs @ reqs'))))"

definition raw_url :: "GitHubAPI \<Rightarrow> string list \<Rightarrow> string" where
  "raw_url g path_parts =
     ''https://raw.githubusercontent.com/'' @ owner g @ ''/'' @ repo g @ ''/main/''
       @ py_join ''/'' path_parts"

definition start_marker :: "string \<Rightarrow> string" where
  "start_marker url = [newline, dquote] @ url @ [dquote] @ '' starts here'' @ [newline]"

definition end_marker :: "string \<Rightarrow> string" where
  "end_marker file_name = [newline, dquote] @ file_name @ [dquote] @ '' ends here'' @ [newline]"

text \<open>
  The body of the \<^verbatim>\<open>try\<close> block of \<^verbatim>\<open>_scrape_code_for_file\<close>, every exception still
  on the left.
\<close>

definition scrape_try_body :: "world \<Rightarrow> GitHubAPI \<Rightarrow> string \<Rightarrow> (py_error + string) \<times> string list" where
  "scrape_try_body w g path =
     (case pop0 (py_split CHR ''/'' path) of
        Inl e \<Rightarrow> (Inl e, [])
      | Inr path_parts \<Rightarrow>
          (case last_item path_parts of
             Inl e \<Rightarrow> (Inl e, [])
           | Inr file_name \<Rightarrow>
               if \<not> list_ex (\<lambda>ext. endswith file_name ext) (allowed_extensions g)
               then (Inr [], [])
               else
                 (let url = raw_url g path_parts in
                  case requests_get w url of
                    Inl e \<Rightarrow> (Inl e, [url])
                  | Inr response \<Rightarrow>
                      (case raise_for_status response of
                         Inl e \<Rightarrow> (Inl e, [url])
                       | Inr _ \<Rightarrow>
                           (Inr (start_marker url @ rtext response @ end_marker file_name),
                            [url])))))"

text \<open>
  \<^verbatim>\<open>_scrape_code_for_file\<close>: the body under its handler, which turns a
  \<^verbatim>\<open>RequestException\<close> into the empty string and lets every other exception pass.
\<close>

definition scrape_code_for_file :: "world \<Rightarrow> GitHubAPI \<Rightarrow> string \<Rightarrow> (py_error + string) \<times> string list" where
  "scrape_code_for_file w g path =
     (case scrape_try_body w g path of
        (Inl e, reqs) \<Rightarrow> (if is_RequestException e then Inr [] else Inl e, reqs)
      | (Inr buffer, reqs) \<Rightarrow> (Inr buffer, reqs))"

text \<open>
  The loop \<^verbatim>\<open>for future in as_completed(code_futures): code_buffer += future.result()\<close>
  over the futures' outcomes in completion order: \<^verbatim>\<open>result()\<close> re-raises the exception
  of a failed future, which leaves the loop.
\<close>

fun collect_results :: "(py_error + string) list \<Rightarrow> string \<Rightarrow> py_error + string" where
  "collect_results [] code_buffer = Inr code_buffer"
| "collect_results (Inl e # rs) code_buffer = Inl e"
| "collect_results (Inr s # rs) code_buffer = collect_results rs (code_buffer @ s)"

text \<open>
  \<^verbatim>\<open>as_completed\<close>: the submitted futures in the order the world completes them.
\<close>

definition as_completed :: "world \<Rightarrow> 'a list \<Rightarrow> 'a list" where
  "as_completed w futures = map (\<lambda>i. futures ! i) (completion_order w (length futures))"

text \<open>
  \<^verbatim>\<open>scrape_code\<close>. Every path is submitted, so every task runs and its requests are
  made whether or not the loop is left early; the requests are listed in submission order.
\<close>

definition scrape_code :: "world \<Rightarrow> GitHubAPI \<Rightarrow> (py_error + string) \<times> string list" where
  "scrape_code w g =
     (case get_all_file_paths w g of
        (Inl e, reqs) \<Rightarrow> (Inl e, reqs)
      | (Inr file_paths, reqs) \<Rightarrow>
          (let code_futures = map (scrape_code_for_file w g) file_paths
           in (collect_results (map fst (as_completed w code_futures)) [],
               reqs @ concat (map snd code_futures))))"

subsection \<open>The script\<close>

text \<open>
  What one run leaves behind: the lines printed, the contents of \<^verbatim>\<open>scraped.txt\<close> if the
  file was written, and the requests made. Opening and writing the file are taken to
  succeed. \<open>run_with\<close> is the \<^verbatim>\<open>try\<close> block once \<^verbatim>\<open>git\<close> is constructed, under
  its \<^verbatim>\<open>except Exception\<close> handler; \<open>run_script\<close> constructs \<^verbatim>\<open>git\<close> as the script does,
  with the default allow-list.
\<close>

record outcome =
  printed :: "string list"
  scraped_txt :: "string option"
  requested :: "string list"

definition run_with :: "world \<Rightarrow> GitHubAPI \<Rightarrow> outcome" where
  "run_with w git =
     (case scrape_code w git of
        (Inr code, reqs) \<Rightarrow>
          \<lparr> printed = [''Scraping took '' @ elapsed w @ ''s''],
            scraped_txt = Some code, requested = reqs \<rparr>
      | (Inl e, reqs) \<Rightarrow>
          \<lparr> printed = [''An error occurred: '' @ str_exc w e],
            scraped_txt = None, requested = reqs \<rparr>)"

definition run_script :: "world \<Rightarrow> string \<Rightarrow> string \<Rightarrow> outcome" where
  "run_script w own rep = run_with w (init_GitHubAPI own rep None)"

definition main :: "world \<Rightarrow> outcome" where
  "main w = run_script w ''Shell1010'' ''Selfcord''"

subsection \<open>The sequential run the parallel one is compared with\<close>

text \<open>
  A run that calls \<^verbatim>\<open>_scrape_code_for_file\<close> on the entries one after the other, in list
  order, appending each result: the loop of \<open>scrape_code\<close> without the executor.
\<close>

definition scrape_sequential :: "world \<Rightarrow> GitHubAPI \<Rightarrow> string list \<Rightarrow> py_error + string" where
  "scrape_sequential w g file_paths =
     collect_results (map (\<lambda>path. fst (scrape_code_for_file w g path)) file_paths) []"

text \<open>
  The fragments a loop of \<open>collect_results\<close> appends, one per future, when no future
  failed.
\<close>

fun fragments :: "(py_error + string) list \<Rightarrow> py_error + string list" where
  "fragments [] = Inr []"
| "fragments (Inl e # rs) = Inl e"
| "fragments (Inr s # rs) = (case fragments rs of Inl e \<Rightarrow> Inl e | Inr ss \<Rightarrow> Inr (s # ss))"

subsection \<open>Vocabulary of the properties\<close>

text \<open>
  Names for what \<^verbatim>\<open>_scrape_code_for_file\<close> computes on the way: the path without its
  top-level directory, the file name, whether some allowed extension matches, the URL
  fetched, and whether that fetch fails with a request error (an exception of the HTTP
  library, or a status \<^verbatim>\<open>raise_for_status\<close> rejects).
\<close>

definition path_parts_of :: "string \<Rightarrow> string list" where
  "path_parts_of path = tl (py_split CHR ''/'' path)"

definition file_name_of :: "string \<Rightarrow> string" where
  "file_name_of path = last (path_parts_of path)"

definition eligible :: "GitHubAPI \<Rightarrow> string \<Rightarrow> bool" where
  "eligible g path \<longleftrightarrow> list_ex (\<lambda>ext. endswith (file_name_of path) ext) (allowed_extensions g)"

definition url_of :: "GitHubAPI \<Rightarrow> string \<Rightarrow> string" where
  "url_of g path = raw_url g (path_parts_of path)"

definition fetch_fails :: "world \<Rightarrow> GitHubAPI \<Rightarrow> string \<Rightarrow> bool" where
  "fetch_fails w g path =
     (case requests_get w (url_of g path) of
        Inl e \<Rightarrow> is_RequestException e
      | Inr r \<Rightarrow> 400 \<le> status_code r \<and> status_code r < 600)"

definition fetch_succeeds :: "world \<Rightarrow> GitHubAPI \<Rightarrow> string \<Rightarrow> response \<Rightarrow> bool" where
  "fetch_succeeds w g path r \<longleftrightarrow>
     requests_get w (url_of g path) = Inr r \<and> \<not> (400 \<le> status_code r \<and> status_code r < 600)"

text \<open>The fragment of a path, the empty string where the task raised.\<close>

definition fragment_of :: "world \<Rightarrow> GitHubAPI \<Rightarrow> string \<Rightarrow> string" where
  "fragment_of w g path =
     (case fst (scrape_code_for_file w g path) of Inl e \<Rightarrow> [] | Inr s \<Rightarrow> s)"

text \<open>
  The outcomes of the futures in the order the loop of \<open>scrape_code\<close> meets them, and
  the outcomes of the calls of the sequential run, in list order.
\<close>

definition completed_outcomes :: "world \<Rightarrow> GitHubAPI \<Rightarrow> string list \<Rightarrow> (py_error + string) list" where
  "completed_outcomes w g file_paths =
     map fst (as_completed w (map (scrape_code_for_file w g) file_paths))"

definition sequential_outcomes :: "world \<Rightarrow> GitHubAPI \<Rightarrow> string list \<Rightarrow> (py_error + string) list" where
  "sequential_outcomes w g file_paths = map (\<lambda>path. fst (scrape_code_for_file w g path)) file_paths"

text \<open>
  Counting markers in a fragment: the number of positions of a string at which a given text
  begins, and the two texts that close a start marker and an end marker.
\<close>

fun count_occ :: "string \<Rightarrow> string \<Rightarrow> nat" where
  "count_occ pat [] = (if pat = [] then 1 else 0)"
| "count_occ pat (x # xs) = (if prefix pat (x # xs) then 1 else 0) + count_occ pat xs"

definition starts_here :: string where
  "starts_here = [dquote] @ '' starts here'' @ [newline]"

definition ends_here :: string where
  "ends_here = [dquote] @ '' ends here'' @ [newline]"

subsection \<open>Concrete worlds for the examples\<close>

definition reply :: "nat \<Rightarrow> (string \<rightharpoonup> string) \<Rightarrow> string \<Rightarrow> response" where
  "reply code hs body = \<lparr> status_code = code, headers = hs, rtext = body, content = body \<rparr>"

definition test_world ::
  "(string \<Rightarrow> py_error + response) \<Rightarrow> (string \<Rightarrow> py_error + response) \<Rightarrow>
   (py_error + string list) \<Rightarrow> world" where
  "test_world sess raw names =
     \<lparr> session_get = sess, requests_get = raw, zip_filenames = (\<lambda>_. names),
       completion_order = (\<lambda>n. rev [0..<n]), elapsed = ''0.001'',
       str_exc = (\<lambda>_. ''error'') \<rparr>"

definition test_api :: GitHubAPI where
  "test_api = init_GitHubAPI ''o'' ''r'' None"

definition archive_ok :: "string \<Rightarrow> py_error + response" where
  "archive_ok url = Inr (reply 200 Map.empty ''PK'')"

text \<open>
  The archive lists \<^verbatim>\<open>README.md\<close> and \<^verbatim>\<open>src/main.go\<close>; the raw file \<^verbatim>\<open>README.md\<close> is served,
  every other raw URL answers 404.
\<close>

definition readme_entries :: "string list" where
  "readme_entries = [''repo-abc123/README.md'', ''repo-abc123/src/main.go'']"

definition readme_raw :: "string \<Rightarrow> py_error + response" where
  "readme_raw url =
     (if url = ''https://raw.githubusercontent.com/o/r/main/README.md''
      then Inr (reply 200 Map.empty ''hello'')
      else Inr (reply 404 Map.empty ''Not Found''))"

definition readme_world :: world where
  "readme_world = test_world archive_ok readme_raw (Inr readme_entries)"

text \<open>The same archive with an empty \<^verbatim>\<open>README.md\<close>.\<close>

definition empty_raw :: "string \<Rightarrow> py_error + response" where
  "empty_raw url = Inr (reply 200 Map.empty [])"

definition empty_world :: world where
  "empty_world = test_world archive_ok empty_raw (Inr readme_entries)"

text \<open>An archive that lists a Markdown file the raw endpoint does not serve.\<close>

definition gone_entries :: "string list" where
  "gone_entries = [''repo-abc123/README.md'', ''repo-abc123/GONE.md'']"

definition gone_world :: world where
  "gone_world = test_world archive_ok readme_raw (Inr gone_entries)"

text \<open>An archive with an entry outside any directory.\<close>

definition flat_entries :: "string list" where
  "flat_entries = [''repo-abc123/README.md'', ''LICENSE'']"

definition flat_world :: world where
  "flat_world = test_world archive_ok readme_raw (Inr flat_entries)"

text \<open>Sessions that fail: an error status, a refused connection.\<close>

definition not_found_session :: "string \<Rightarrow> py_error + response" where
  "not_found_session url = Inr (reply 404 Map.empty ''Not Found'')"

definition refused_session :: "string \<Rightarrow> py_error + response" where
  "refused_session url = Inl (RequestException ''connection refused'')"

text \<open>A session whose answer to every URL is a redirect without a target.\<close>

definition bare_redirect_session :: "string \<Rightarrow> py_error + response" where
  "bare_redirect_session url = Inr (reply 302 Map.empty [])"

text \<open>A \<^verbatim>\<open>README.md\<close> whose text quotes its own two marker lines.\<close>

definition quoted_text :: string where
  "quoted_text =
     [dquote] @ ''https://raw.githubusercontent.com/o/r/main/README.md'' @ [dquote]
       @ '' starts here'' @ [newline, dquote] @ ''README.md'' @ [dquote] @ '' ends here''"

definition quoting_raw :: "string \<Rightarrow> py_error + response" where
  "quoting_raw url = Inr (reply 200 Map.empty quoted_text)"

definition quoting_world :: world where
  "quoting_world = test_world archive_ok quoting_raw (Inr readme_entries)"

text \<open>
  A session that answers the archive endpoint with a redirect it did not follow, and
  every other URL with a server error.
\<close>

definition redirect_session :: "string \<Rightarrow> py_error + response" where
  "redirect_session url =
     (if url = ''https://api.github.com/repos/o/r/zipball/main''
      then Inr (reply 302 [''Location'' \<mapsto> ''https://codeload.github.com/o/r/zip/main''] [])
      else Inr (reply 500 Map.empty []))"

section \<open>Auxiliary facts\<close>

subsection \<open>Splitting a path\<close>

lemma py_split_not_Nil [simp]: "py_split c s \<noteq> []"
  by (induction s) (auto split: list.splits)

lemma tl_py_split_Nil: "tl (py_split c s) = [] \<longleftrightarrow> c \<notin> set s"
  by (induction s) (auto split: list.splits)

lemma py_split_append_sep: "py_split c (a @ c # b) = py_split c a @ py_split c b"
  by (induction a) (auto split: list.splits)

lemma last_py_split_sep:
  assumes "s \<noteq> []" and "last s = c"
  shows "last (py_split c s) = []"
proof -
  from assms have "s = butlast s @ c # []" by (metis append_butlast_last_id)
  then have "py_split c s = py_split c (butlast s) @ py_split c []"
    by (metis py_split_append_sep)
  then show ?thesis by simp
qed

lemma pop0_py_split: "pop0 (py_split c s) = Inr (tl (py_split c s))"
  by (cases "py_split c s") (simp_all add: pop0_def)

lemma endswith_Nil_iff: "endswith [] ext \<longleftrightarrow> ext = []"
  by (auto simp: endswith_def)

lemma file_name_of_dir:
  assumes "path \<noteq> []" and "last path = CHR ''/''"
  shows "file_name_of path = []"
proof -
  from assms have l: "last (py_split CHR ''/'' path) = []" by (rule last_py_split_sep)
  from assms have "CHR ''/'' \<in> set path" by (metis last_in_set)
  then have "tl (py_split CHR ''/'' path) \<noteq> []" by (simp add: tl_py_split_Nil)
  then have "last (tl (py_split CHR ''/'' path)) = last (py_split CHR ''/'' path)"
    by (simp add: last_tl)
  with l show ?thesis by (simp add: file_name_of_def path_parts_of_def)
qed

subsection \<open>The three ways through \<open>scrape_code_for_file\<close>\<close>

lemma scrape_no_sep:
  "CHR ''/'' \<notin> set path \<Longrightarrow> scrape_code_for_file w g path = (Inl IndexError, [])"
  by (simp add: scrape_code_for_file_def scrape_try_body_def pop0_py_split last_item_def
      tl_py_split_Nil)

lemma scrape_ineligible:
  "CHR ''/'' \<in> set path \<Longrightarrow> \<not> eligible g path \<Longrightarrow> scrape_code_for_file w g path = (Inr [], [])"
  by (simp add: scrape_code_for_file_def scrape_try_body_def pop0_py_split last_item_def
      tl_py_split_Nil eligible_def file_name_of_def path_parts_of_def)

lemma scrape_eligible:
  "CHR ''/'' \<in> set path \<Longrightarrow> eligible g path \<Longrightarrow>
   scrape_code_for_file w g path =
     (case requests_get w (url_of g path) of
        Inl e \<Rightarrow> (if is_RequestException e then Inr [] else Inl e, [url_of g path])
      | Inr r \<Rightarrow>
          (if 400 \<le> status_code r \<and> status_code r < 600 then (Inr [], [url_of g path])
           else (Inr (start_marker (url_of g path) @ rtext r @ end_marker (file_name_of path)),
                 [url_of g path])))"
  by (simp add: scrape_code_for_file_def scrape_try_body_def pop0_py_split last_item_def
      tl_py_split_Nil eligible_def file_name_of_def path_parts_of_def url_of_def
      raise_for_status_def Let_def split: sum.splits)

subsection \<open>The collecting loop\<close>

lemma fragments_map_Inr [simp]: "fragments (map Inr ss) = Inr ss"
  by (induction ss) auto

lemma fragments_Inr: "fragments rs = Inr ss \<longleftrightarrow> rs = map Inr ss"
proof
  show "fragments rs = Inr ss \<Longrightarrow> rs = map Inr ss"
    by (induction rs arbitrary: ss rule: fragments.induct) (auto split: sum.splits)
qed simp

lemma fragments_Inl: "(\<exists>e. fragments rs = Inl e) \<longleftrightarrow> (\<exists>e. Inl e \<in> set rs)"
  by (induction rs rule: fragments.induct) (auto split: sum.splits)

lemma fragments_Inl_mem: "fragments rs = Inl e \<Longrightarrow> Inl e \<in> set rs"
  by (induction rs rule: fragments.induct) (auto split: sum.splits)

lemma collect_results_fragments:
  "collect_results rs buf =
     (case fragments rs of Inl e \<Rightarrow> Inl e | Inr ss \<Rightarrow> Inr (buf @ concat ss))"
  by (induction rs buf rule: collect_results.induct) (auto split: sum.splits)

lemma collect_results_Nil:
  "collect_results rs [] = (case fragments rs of Inl e \<Rightarrow> Inl e | Inr ss \<Rightarrow> Inr (concat ss))"
  by (simp add: collect_results_fragments split: sum.splits)

lemma mset_as_completed:
  assumes "mset (completion_order w (length fs)) = mset [0..<length fs]"
  shows "mset (as_completed w fs) = mset fs"
proof -
  have "mset (as_completed w fs)
      = image_mset (\<lambda>i. fs ! i) (mset (completion_order w (length fs)))"
    by (simp add: as_completed_def)
  also have "\<dots> = mset (map (\<lambda>i. fs ! i) [0..<length fs])"
    using assms by simp
  also have "\<dots> = mset fs" by (simp add: map_nth)
  finally show ?thesis .
qed

lemma as_completed_map:
  assumes "mset (completion_order w (length xs)) = mset [0..<length xs]"
  shows "as_completed w (map f xs) = map f (as_completed w xs)"
proof -
  have "set (completion_order w (length xs)) = set [0..<length xs]"
    using assms by (rule mset_eq_setD)
  then have "\<forall>i \<in> set (completion_order w (length xs)). i < length xs" by simp
  then show ?thesis by (simp add: as_completed_def)
qed

lemma scrape_code_paths:
  "get_all_file_paths w g = (Inr file_paths, reqs) \<Longrightarrow>
   scrape_code w g =
     (collect_results (map fst (as_completed w (map (scrape_code_for_file w g) file_paths))) [],
      reqs @ concat (map snd (map (scrape_code_for_file w g) file_paths)))"
  by (simp add: scrape_code_def Let_def)

lemma mset_map_Inr_eq:
  assumes "mset (map Inr fs :: ('e + 'a) list) = mset (map Inr gs)"
  shows "mset fs = mset gs"
proof -
  from assms have "image_mset (Inr :: 'a \<Rightarrow> 'e + 'a) (mset fs) = image_mset Inr (mset gs)"
    by simp
  moreover have "inj (Inr :: 'a \<Rightarrow> 'e + 'a)" by (simp add: inj_def)
  ultimately show ?thesis by (metis multiset.inj_map injD)
qed

subsection \<open>Fetching one file\<close>

lemma eligible_iff: "eligible g path \<longleftrightarrow> (\<exists>ext \<in> set (allowed_extensions g). endswith (file_name_of path) ext)"
  by (simp add: eligible_def list_ex_iff)

lemma scrape_fetched:
  assumes "CHR ''/'' \<in> set path" and "eligible g path" and "fetch_succeeds w g path r"
  shows "scrape_code_for_file w g path =
     (Inr (start_marker (url_of g path) @ rtext r @ end_marker (file_name_of path)), [url_of g path])"
  using assms(3) by (auto simp: scrape_eligible [OF assms(1,2)] fetch_succeeds_def)

lemma scrape_fetch_failed:
  assumes "CHR ''/'' \<in> set path" and "eligible g path" and "fetch_fails w g path"
  shows "scrape_code_for_file w g path = (Inr [], [url_of g path])"
  using assms(3) by (auto simp: scrape_eligible [OF assms(1,2)] fetch_fails_def split: sum.splits)

subsection \<open>The run as a whole\<close>

lemma set_as_completed:
  assumes "mset (completion_order w (length xs)) = mset [0..<length xs]"
  shows "set (as_completed w xs) = set xs"
  using mset_as_completed [OF assms] by (rule mset_eq_setD)

lemma completed_outcomes_map:
  assumes "mset (completion_order w (length file_paths)) = mset [0..<length file_paths]"
  shows "completed_outcomes w g file_paths
    = map (\<lambda>p. fst (scrape_code_for_file w g p)) (as_completed w file_paths)"
  by (simp add: completed_outcomes_def as_completed_map [OF assms])

lemma scrape_code_all_return:
  assumes paths: "get_all_file_paths w g = (Inr file_paths, reqs)"
    and order: "mset (completion_order w (length file_paths)) = mset [0..<length file_paths]"
    and ok: "\<forall>p \<in> set file_paths. \<not> isl (fst (scrape_code_for_file w g p))"
  shows "fst (scrape_code w g) = Inr (concat (map (fragment_of w g) (as_completed w file_paths)))"
proof -
  have "\<forall>p \<in> set (as_completed w file_paths). \<not> isl (fst (scrape_code_for_file w g p))"
    using ok by (simp add: set_as_completed [OF order])
  then have "map (\<lambda>p. fst (scrape_code_for_file w g p)) (as_completed w file_paths)
      = map Inr (map (fragment_of w g) (as_completed w file_paths))"
    by (auto simp: fragment_of_def split: sum.splits)
  then have "completed_outcomes w g file_paths
      = map Inr (map (fragment_of w g) (as_completed w file_paths))"
    by (simp add: completed_outcomes_map [OF order])
  then show ?thesis
    by (simp add: scrape_code_paths [OF paths] collect_results_Nil completed_outcomes_def
        del: map_map)
qed

lemma scrape_code_some_raise:
  assumes paths: "get_all_file_paths w g = (Inr file_paths, reqs)"
    and order: "mset (completion_order w (length file_paths)) = mset [0..<length file_paths]"
    and bad: "p \<in> set file_paths" "isl (fst (scrape_code_for_file w g p))"
  shows "\<exists>e. fst (scrape_code w g) = Inl e
    \<and> (\<exists>q \<in> set file_paths. fst (scrape_code_for_file w g q) = Inl e)"
proof -
  let ?outs = "map (\<lambda>p. fst (scrape_code_for_file w g p)) (as_completed w file_paths)"
  from bad obtain e0 where "fst (scrape_code_for_file w g p) = Inl e0"
    by (cases "fst (scrape_code_for_file w g p)") auto
  with bad(1) have "Inl e0 \<in> set ?outs"
    by (force simp: set_as_completed [OF order])
  then have "\<exists>e. fragments ?outs = Inl e" by (auto simp: fragments_Inl)
  then obtain e where e: "fragments ?outs = Inl e" ..
  then have "Inl e \<in> set ?outs" by (rule fragments_Inl_mem)
  then have mem: "\<exists>q \<in> set file_paths. fst (scrape_code_for_file w g q) = Inl e"
    by (auto simp: set_as_completed [OF order])
  have "fst (scrape_code w g) = Inl e"
    using e
    by (simp add: scrape_code_paths [OF paths] collect_results_Nil
        completed_outcomes_map [OF order, unfolded completed_outcomes_def])
  with mem show ?thesis by blast
qed

lemma concat_map_filter:
  "\<forall>x \<in> set xs. \<not> P x \<longrightarrow> f x = [] \<Longrightarrow> concat (map f (filter P xs)) = concat (map f xs)"
  by (induction xs) auto

lemma sublist_concat_map: "x \<in> set xs \<Longrightarrow> sublist (f x) (concat (map f xs))"
proof -
  assume "x \<in> set xs"
  then obtain ys zs where "xs = ys @ x # zs" by (meson split_list)
  then have "concat (map f xs) = concat (map f ys) @ f x @ concat (map f zs)" by simp
  then show ?thesis unfolding sublist_def by blast
qed

lemma mset_pair_cases:
  assumes "mset xs = mset [a, b]"
  shows "xs = [a, b] \<or> xs = [b, a]"
proof -
  from assms have "length xs = 2" by (metis mset_eq_length length_Cons list.size(3) numeral_2_eq_2)
  then obtain x y where xs: "xs = [x, y]"
    by (metis (no_types, opaque_lifting) length_0_conv length_Suc_conv numeral_2_eq_2)
  with assms have "{#x, y#} = {#a, b#}" by simp
  then have "x = a \<and> y = b \<or> x = b \<and> y = a" by (auto simp: add_eq_conv_ex)
  with xs show ?thesis by auto
qed

lemma run_with_Inr: "fst (scrape_code w g) = Inr code \<Longrightarrow>
   run_with w g = \<lparr> printed = [''Scraping took '' @ elapsed w @ ''s''],
            scraped_txt = Some code, requested = snd (scrape_code w g) \<rparr>"
  by (cases "scrape_code w g") (simp add: run_with_def)

lemma run_with_Inl: "fst (scrape_code w g) = Inl e \<Longrightarrow>
   run_with w g = \<lparr> printed = [''An error occurred: '' @ str_exc w e],
            scraped_txt = None, requested = snd (scrape_code w g) \<rparr>"
  by (cases "scrape_code w g") (simp add: run_with_def)

lemma run_with_archive_failure:
  assumes "fst (get_all_file_paths w g) = Inl e"
  shows "scrape_code w g = (Inl e, snd (get_all_file_paths w g))
    \<and> run_with w g = \<lparr> printed = [''An error occurred: '' @ str_exc w e],
          scraped_txt = None, requested = snd (get_all_file_paths w g) \<rparr>"
  using assms by (cases "get_all_file_paths w g") (simp add: scrape_code_def run_with_def)

subsection \<open>Occurrences of the marker texts\<close>

lemma count_occ_skip:
  "c \<notin> set a \<Longrightarrow> count_occ (c # t) (a @ b) = count_occ (c # t) b"
  by (induction a) auto

lemma count_occ_none: "c \<notin> set a \<Longrightarrow> count_occ (c # t) a = 0"
  using count_occ_skip [of c a t "[]"] by simp

lemma count_occ_hit:
  "count_occ (c # t) (c # s) = (if prefix t s then 1 else 0) + count_occ (c # t) s"
  by simp

lemma count_occ_ge1: "1 \<le> count_occ pat (a @ pat @ b)"
proof (induction a)
  case Nil
  show ?case
  proof (cases "pat @ b")
    case Nil
    then show ?thesis by simp
  next
    case (Cons x l)
    then have "prefix pat (x # l)" by (metis prefixI)
    then show ?thesis by (simp add: Cons)
  qed
next
  case (Cons x a)
  then show ?case by simp
qed

lemma prefix_crossing:
  assumes "prefix t (a @ c # b)" and "c \<notin> set t"
  shows "prefix t a"
proof -
  from assms(1) have "prefix t a \<or> (\<exists>us. t = a @ us \<and> prefix us (c # b))"
    by (simp add: prefix_append)
  then show ?thesis
  proof
    assume "\<exists>us. t = a @ us \<and> prefix us (c # b)"
    then obtain us where us: "t = a @ us" "prefix us (c # b)" by blast
    show ?thesis
    proof (cases us)
      case Nil
      with us show ?thesis by simp
    next
      case (Cons u us')
      with us have "u = c" by simp
      with Cons us(1) assms(2) show ?thesis by simp
    qed
  qed simp
qed

lemma set_py_split_Un: "(\<Union>p \<in> set (py_split c s). set p) \<subseteq> set s"
proof (induction s)
  case Nil
  show ?case by simp
next
  case (Cons x s)
  obtain q qs where q: "py_split c s = q # qs" by (cases "py_split c s") simp_all
  with Cons have "set q \<subseteq> set s" "\<forall>p \<in> set qs. set p \<subseteq> set s" by auto
  then show ?case by (auto simp: q)
qed

lemma set_py_split: "p \<in> set (py_split c s) \<Longrightarrow> set p \<subseteq> set s"
  using set_py_split_Un [of c s] by blast

lemma set_py_join: "set (py_join sep ps) \<subseteq> set sep \<union> (\<Union>p \<in> set ps. set p)"
  by (induction sep ps rule: py_join.induct) auto

lemma set_path_parts: "p \<in> set (path_parts_of path) \<Longrightarrow> set p \<subseteq> set path"
  unfolding path_parts_of_def using set_py_split [of p "CHR ''/''" path]
  by (meson list.set_sel(2) py_split_not_Nil)

lemma set_file_name_of: "CHR ''/'' \<in> set path \<Longrightarrow> set (file_name_of path) \<subseteq> set path"
proof -
  assume "CHR ''/'' \<in> set path"
  then have "path_parts_of path \<noteq> []" by (simp add: path_parts_of_def tl_py_split_Nil)
  then have "file_name_of path \<in> set (path_parts_of path)" by (simp add: file_name_of_def)
  then show ?thesis by (rule set_path_parts)
qed

lemma set_url_of:
  "set (url_of g path) \<subseteq> set ''https://raw.githubusercontent.com/main'' \<union> set (owner g) \<union> set (repo g) \<union> set path"
proof -
  have "set (py_join ''/'' (path_parts_of path)) \<subseteq> set ''/'' \<union> set path"
    using set_py_join [of "''/''" "path_parts_of path"] set_path_parts [of _ path] by blast
  then show ?thesis by (auto simp: url_of_def raw_url_def)
qed

lemma no_marker_text_prefix:
  assumes "newline \<notin> set a"
  shows "\<not> prefix ('' starts here'' @ [newline]) (a @ dquote # b)"
    and "\<not> prefix ('' ends here'' @ [newline]) (a @ dquote # b)"
proof -
  have d1: "dquote \<notin> set ('' starts here'' @ [newline])"
    and d2: "dquote \<notin> set ('' ends here'' @ [newline])"
    by (simp_all add: dquote_def newline_def)
  show "\<not> prefix ('' starts here'' @ [newline]) (a @ dquote # b)"
  proof
    assume "prefix ('' starts here'' @ [newline]) (a @ dquote # b)"
    then have "prefix ('' starts here'' @ [newline]) a" using d1 by (rule prefix_crossing)
    then have "set ('' starts here'' @ [newline]) \<subseteq> set a" by (rule set_mono_prefix)
    with assms show False by simp
  qed
  show "\<not> prefix ('' ends here'' @ [newline]) (a @ dquote # b)"
  proof
    assume "prefix ('' ends here'' @ [newline]) (a @ dquote # b)"
    then have "prefix ('' ends here'' @ [newline]) a" using d2 by (rule prefix_crossing)
    then have "set ('' ends here'' @ [newline]) \<subseteq> set a" by (rule set_mono_prefix)
    with assms show False by simp
  qed
qed

lemma markers_once:
  assumes u: "dquote \<notin> set url" "newline \<notin> set url"
    and c: "dquote \<notin> set body"
    and f: "dquote \<notin> set fn" "newline \<notin> set fn"
  shows "count_occ starts_here (start_marker url @ body @ end_marker fn) = 1"
    and "count_occ ends_here (start_marker url @ body @ end_marker fn) = 1"
proof -
  let ?T = "'' starts here'' @ [newline]" and ?E = "'' ends here'' @ [newline]"
  let ?X3 = "fn @ dquote # ?E"
  let ?X2 = "(?T @ body @ [newline]) @ dquote # ?X3"
  let ?X1 = "url @ dquote # ?X2"
  have frag: "start_marker url @ body @ end_marker fn = [newline] @ dquote # ?X1"
    by (simp add: start_marker_def end_marker_def)
  have nd: "dquote \<notin> set [newline]" by (simp add: dquote_def newline_def)
  have mid: "dquote \<notin> set (?T @ body @ [newline])"
    using c by (simp add: dquote_def newline_def)
  have dE: "dquote \<notin> set ?E" and dT: "dquote \<notin> set ?T"
    by (simp_all add: dquote_def newline_def)
  have TE: "\<not> prefix ?T ?E" and ET: "\<not> prefix ?E (?T @ body @ [newline])" by simp_all
  have ET': "\<not> prefix ?E ?X2" using ET by simp
  { fix t :: string
    assume t1: "\<not> prefix t ?X1" and t3: "\<not> prefix t ?X3"
    have "count_occ (dquote # t) ([newline] @ dquote # ?X1)
        = (if prefix t ?X2 then 1 else 0) + ((if prefix t ?E then 1 else 0) + count_occ (dquote # t) ?E)"
    proof -
      have "count_occ (dquote # t) ([newline] @ dquote # ?X1) = count_occ (dquote # t) (dquote # ?X1)"
        using nd by (rule count_occ_skip)
      also have "\<dots> = count_occ (dquote # t) ?X1" using t1 by (simp only: count_occ_hit if_False add_0)
      also have "\<dots> = count_occ (dquote # t) (dquote # ?X2)" using u(1) by (rule count_occ_skip)
      also have "\<dots> = (if prefix t ?X2 then 1 else 0) + count_occ (dquote # t) ?X2"
        by (rule count_occ_hit)
      also have "count_occ (dquote # t) ?X2 = count_occ (dquote # t) (dquote # ?X3)"
        using mid by (rule count_occ_skip)
      also have "\<dots> = count_occ (dquote # t) ?X3" using t3 by (simp only: count_occ_hit if_False add_0)
      also have "\<dots> = count_occ (dquote # t) (dquote # ?E)" using f(1) by (rule count_occ_skip)
      also have "\<dots> = (if prefix t ?E then 1 else 0) + count_occ (dquote # t) ?E"
        by (rule count_occ_hit)
      finally show ?thesis .
    qed }
  note step = this
  have s: "count_occ (dquote # ?T) ([newline] @ dquote # ?X1) = 1"
    using step [of ?T, OF no_marker_text_prefix(1) [OF u(2)] no_marker_text_prefix(1) [OF f(2)]]
      TE count_occ_none [OF dE, of ?T]
    by simp
  have e: "count_occ (dquote # ?E) ([newline] @ dquote # ?X1) = 1"
    using step [of ?E, OF no_marker_text_prefix(2) [OF u(2)] no_marker_text_prefix(2) [OF f(2)]]
      ET' count_occ_none [OF dE, of ?E]
    by simp
  show "count_occ starts_here (start_marker url @ body @ end_marker fn) = 1"
    unfolding frag starts_here_def using s by simp
  show "count_occ ends_here (start_marker url @ body @ end_marker fn) = 1"
    unfolding frag ends_here_def using e by simp
qed

lemma markers_at_least_once:
  "1 \<le> count_occ starts_here (start_marker url @ body @ end_marker fn)"
  "1 \<le> count_occ ends_here (start_marker url @ body @ end_marker fn)"
proof -
  have "start_marker url @ body @ end_marker fn
      = ([newline, dquote] @ url) @ starts_here @ (body @ end_marker fn)"
    by (simp add: start_marker_def starts_here_def)
  then show "1 \<le> count_occ starts_here (start_marker url @ body @ end_marker fn)"
    by (metis count_occ_ge1)
  have "start_marker url @ body @ end_marker fn
      = (start_marker url @ body @ [newline, dquote] @ fn) @ ends_here @ []"
    by (simp add: end_marker_def ends_here_def)
  then show "1 \<le> count_occ ends_here (start_marker url @ body @ end_marker fn)"
    by (metis count_occ_ge1)
qed

subsection \<open>The two entries of the scenario\<close>

lemma url_of_readme: "url_of g ''repo-abc123/README.md'' =
    ''https://raw.githubusercontent.com/'' @ owner g @ ''/'' @ repo g @ ''/main/README.md''"
  by (simp add: url_of_def raw_url_def path_parts_of_def)

lemma file_name_of_readme: "file_name_of ''repo-abc123/README.md'' = ''README.md''"
  by (simp add: file_name_of_def path_parts_of_def)

lemma readme_eligible: "allowed_extensions g = [''.md''] \<Longrightarrow> eligible g ''repo-abc123/README.md''"
  by (simp add: eligible_def file_name_of_readme endswith_def)

lemma file_name_of_main_go: "file_name_of ''repo-abc123/src/main.go'' = ''main.go''"
  by (simp add: file_name_of_def path_parts_of_def)

lemma main_go_ineligible:
  "allowed_extensions g = [''.md''] \<Longrightarrow> \<not> eligible g ''repo-abc123/src/main.go''"
  by (simp add: eligible_def file_name_of_main_go endswith_def)

subsection \<open>A redirect without a target\<close>

lemma archive_url_redirect_without_location:
  "session_get w (zipball_url g) = Inr r \<Longrightarrow> status_code r = 302 \<Longrightarrow>
   headers r ''Location'' = None \<Longrightarrow> fst (get_archive_url w g) = Inl (KeyError ''Location'')"
  by (simp add: get_archive_url_def make_request_def raise_for_status_def Let_def)

subsection \<open>The example worlds\<close>

lemmas world_simps = test_world_def test_api_def init_GitHubAPI_def archive_ok_def reply_def
  readme_world_def readme_raw_def readme_entries_def empty_world_def empty_raw_def
  gone_world_def gone_entries_def flat_world_def flat_entries_def
  not_found_session_def refused_session_def redirect_session_def

lemmas archive_simps = get_all_file_paths_def get_archive_url_def make_request_def
  raise_for_status_def zipball_url_def BASE_URL_def Let_def

lemma readme_paths:
  "get_all_file_paths readme_world test_api =
     (Inr readme_entries, [''https://api.github.com/repos/o/r/zipball/main'',
                           ''https://api.github.com/repos/o/r/zipball/main''])"
  by (simp add: world_simps archive_simps)

lemma readme_order:
  "mset (completion_order readme_world (length readme_entries)) = mset [0..<length readme_entries]"
  by (simp add: world_simps)

lemma test_world_sel [simp]:
  "session_get (test_world sess raw names) = sess"
  "requests_get (test_world sess raw names) = raw"
  "zip_filenames (test_world sess raw names) = (\<lambda>_. names)"
  "str_exc (test_world sess raw names) = (\<lambda>_. ''error'')"
  "elapsed (test_world sess raw names) = ''0.001''"
  by (simp_all add: test_world_def)

lemma test_world_order: "mset (completion_order (test_world sess raw names) k) = mset [0..<k]"
  by (simp add: test_world_def)

lemma listing_paths:
  "get_all_file_paths (test_world archive_ok raw (Inr names)) test_api =
     (Inr names, [''https://api.github.com/repos/o/r/zipball/main'',
                  ''https://api.github.com/repos/o/r/zipball/main''])"
  by (simp add: test_world_def test_api_def init_GitHubAPI_def archive_ok_def reply_def
      archive_simps)

lemma test_api_exts: "allowed_extensions test_api = [''.md'']"
  by (simp add: test_api_def init_GitHubAPI_def)

lemma test_api_zipball: "zipball_url test_api = ''https://api.github.com/repos/o/r/zipball/main''"
  by (simp add: zipball_url_def BASE_URL_def test_api_def init_GitHubAPI_def)

lemma test_api_readme_url:
  "url_of test_api ''repo-abc123/README.md'' = ''https://raw.githubusercontent.com/o/r/main/README.md''"
  by (simp add: url_of_readme test_api_def init_GitHubAPI_def)

lemma readme_endswith: "endswith (file_name_of ''repo-abc123/README.md'') ''.md''"
  by (simp add: file_name_of_readme endswith_def)

lemma readme_ext: "\<exists>ext \<in> set (allowed_extensions test_api).
      endswith (file_name_of ''repo-abc123/README.md'') ext"
  using readme_endswith by (simp add: test_api_exts)

lemma readme_served:
  "requests_get w ''https://raw.githubusercontent.com/o/r/main/README.md'' = Inr (reply 200 Map.empty body)
   \<Longrightarrow> scrape_code_for_file w test_api ''repo-abc123/README.md'' =
      (Inr ([CHR 0x0A, CHR 0x22] @ ''https://raw.githubusercontent.com/o/r/main/README.md''
            @ [CHR 0x22] @ '' starts here'' @ [CHR 0x0A] @ body
            @ [CHR 0x0A, CHR 0x22] @ ''README.md'' @ [CHR 0x22] @ '' ends here'' @ [CHR 0x0A]),
       [''https://raw.githubusercontent.com/o/r/main/README.md''])"
  using scrape_fetched [of "''repo-abc123/README.md''" test_api w "reply 200 Map.empty body"]
  by (simp add: readme_eligible test_api_exts fetch_succeeds_def test_api_readme_url
      file_name_of_readme start_marker_def end_marker_def newline_def dquote_def reply_def)

lemma main_go_skipped: "scrape_code_for_file w test_api ''repo-abc123/src/main.go'' = (Inr [], [])"
  using scrape_ineligible [OF _ main_go_ineligible [OF test_api_exts]] by simp

lemma readme_raw_readme:
  "readme_raw ''https://raw.githubusercontent.com/o/r/main/README.md'' = Inr (reply 200 Map.empty ''hello'')"
  by (simp add: readme_raw_def)

lemma readme_scraped:
  "scrape_code_for_file (test_world sess readme_raw names) test_api ''repo-abc123/README.md'' =
      (Inr ([CHR 0x0A, CHR 0x22] @ ''https://raw.githubusercontent.com/o/r/main/README.md''
            @ [CHR 0x22] @ '' starts here'' @ [CHR 0x0A] @ ''hello''
            @ [CHR 0x0A, CHR 0x22] @ ''README.md'' @ [CHR 0x22] @ '' ends here'' @ [CHR 0x0A]),
       [''https://raw.githubusercontent.com/o/r/main/README.md''])"
  by (rule readme_served) (simp add: readme_raw_readme)

lemma quoting_scraped:
  "scrape_code_for_file quoting_world test_api ''repo-abc123/README.md'' =
      (Inr ([CHR 0x0A, CHR 0x22] @ ''https://raw.githubusercontent.com/o/r/main/README.md''
            @ [CHR 0x22] @ '' starts here'' @ [CHR 0x0A] @ quoted_text
            @ [CHR 0x0A, CHR 0x22] @ ''README.md'' @ [CHR 0x22] @ '' ends here'' @ [CHR 0x0A]),
       [''https://raw.githubusercontent.com/o/r/main/README.md''])"
  by (rule readme_served) (simp add: quoting_world_def quoting_raw_def)

lemma readme_fetch: "fetch_succeeds readme_world test_api ''repo-abc123/README.md'' (reply 200 Map.empty ''hello'')"
  by (simp add: fetch_succeeds_def url_of_readme world_simps)

section \<open>The properties\<close>

text \<open>
  C1. Parallel collection against a sequential run. Let the archive list \<open>file_paths\<close> and
  let the futures complete in any order that yields each of them once. Then the outcomes
  the loop of \<open>scrape_code\<close> meets are, as a multiset, the outcomes of calling
  \<^verbatim>\<open>_scrape_code_for_file\<close> on the entries one after the other; the parallel run raises
  exactly when the sequential run raises; and when both return, each buffer is the
  concatenation of its fragments and the two multisets of fragments (with or without the
  empty ones) are equal: only the order of concatenation can differ.
\<close>

theorem parallel_same_fragments_as_sequential:
  assumes paths: "get_all_file_paths w g = (Inr file_paths, reqs)"
    and order: "mset (completion_order w (length file_paths)) = mset [0..<length file_paths]"
  shows "mset (completed_outcomes w g file_paths) = mset (sequential_outcomes w g file_paths)
    \<and> fst (scrape_code w g) =
        (case fragments (completed_outcomes w g file_paths) of
           Inl e \<Rightarrow> Inl e | Inr fs \<Rightarrow> Inr (concat fs))
    \<and> scrape_sequential w g file_paths =
        (case fragments (sequential_outcomes w g file_paths) of
           Inl e \<Rightarrow> Inl e | Inr gs \<Rightarrow> Inr (concat gs))
    \<and> (isl (fst (scrape_code w g)) \<longleftrightarrow> isl (scrape_sequential w g file_paths))
    \<and> (\<forall>fs gs. fragments (completed_outcomes w g file_paths) = Inr fs \<longrightarrow>
                fragments (sequential_outcomes w g file_paths) = Inr gs \<longrightarrow>
                mset fs = mset gs \<and>
                mset (filter (\<lambda>s. s \<noteq> []) fs) = mset (filter (\<lambda>s. s \<noteq> []) gs))"
proof -
  let ?par = "completed_outcomes w g file_paths"
  let ?seq = "sequential_outcomes w g file_paths"
  have "mset (as_completed w (map (scrape_code_for_file w g) file_paths))
      = mset (map (scrape_code_for_file w g) file_paths)"
    by (rule mset_as_completed) (simp add: order)
  then have "mset (map fst (as_completed w (map (scrape_code_for_file w g) file_paths)))
      = mset (map fst (map (scrape_code_for_file w g) file_paths))"
    by (metis mset_map)
  then have m: "mset ?par = mset ?seq"
    by (simp add: completed_outcomes_def sequential_outcomes_def comp_def)
  have par: "fst (scrape_code w g) =
      (case fragments ?par of Inl e \<Rightarrow> Inl e | Inr fs \<Rightarrow> Inr (concat fs))"
    by (simp add: scrape_code_paths [OF paths] collect_results_Nil completed_outcomes_def)
  have seq: "scrape_sequential w g file_paths =
      (case fragments ?seq of Inl e \<Rightarrow> Inl e | Inr gs \<Rightarrow> Inr (concat gs))"
    by (simp add: scrape_sequential_def collect_results_Nil sequential_outcomes_def)
  have s: "set ?par = set ?seq" using m by (rule mset_eq_setD)
  have "(\<exists>e. fragments ?par = Inl e) \<longleftrightarrow> (\<exists>e. fragments ?seq = Inl e)"
    by (simp add: fragments_Inl s)
  then have i: "isl (fst (scrape_code w g)) \<longleftrightarrow> isl (scrape_sequential w g file_paths)"
    unfolding par seq by (auto split: sum.splits)
  have f: "mset fs = mset gs \<and>
      mset (filter (\<lambda>s. s \<noteq> []) fs) = mset (filter (\<lambda>s. s \<noteq> []) gs)"
    if "fragments ?par = Inr fs" "fragments ?seq = Inr gs" for fs gs
  proof -
    from that have "?par = map Inr fs" "?seq = map Inr gs" by (simp_all add: fragments_Inr)
    with m have "mset (map Inr fs :: (py_error + string) list) = mset (map Inr gs)" by simp
    then have "mset fs = mset gs" by (rule mset_map_Inr_eq)
    then show ?thesis by simp
  qed
  from m par seq i f show ?thesis by blast
qed

theorem parallel_same_fragments_as_sequential_witness:
  "get_all_file_paths readme_world test_api =
     (Inr readme_entries, [''https://api.github.com/repos/o/r/zipball/main'',
                           ''https://api.github.com/repos/o/r/zipball/main''])
   \<and> mset (completion_order readme_world (length readme_entries)) = mset [0..<length readme_entries]
   \<and> mset (completed_outcomes readme_world test_api readme_entries)
       = mset (sequential_outcomes readme_world test_api readme_entries)
   \<and> isl (fst (scrape_code readme_world test_api))
       = isl (scrape_sequential readme_world test_api readme_entries)"
  using parallel_same_fragments_as_sequential [OF readme_paths readme_order]
    readme_paths readme_order
  by blast

text \<open>
  C2. An entry whose file name (the last segment of the path once the top-level directory
  is stripped, so the path has a \<^verbatim>\<open>/\<close>) ends with no extension of the allow-list gives the
  empty string, and no request is made for it.
\<close>

theorem ineligible_skipped:
  assumes "CHR ''/'' \<in> set path"
    and "\<forall>ext \<in> set (allowed_extensions g). \<not> endswith (file_name_of path) ext"
  shows "scrape_code_for_file w g path = (Inr [], [])"
proof -
  have "\<not> eligible g path" using assms(2) by (simp add: eligible_def list_ex_iff)
  with assms(1) show ?thesis by (rule scrape_ineligible)
qed

theorem ineligible_skipped_witness:
  "CHR ''/'' \<in> set ''repo-abc123/src/main.go''
   \<and> allowed_extensions test_api = [''.md'']
   \<and> \<not> endswith (file_name_of ''repo-abc123/src/main.go'') ''.md''
   \<and> file_name_of ''repo-abc123/src/main.go'' = ''main.go''
   \<and> scrape_code_for_file readme_world test_api ''repo-abc123/src/main.go'' = (Inr [], [])"
proof -
  have h1: "CHR ''/'' \<in> set ''repo-abc123/src/main.go''" by simp
  have fn: "file_name_of ''repo-abc123/src/main.go'' = ''main.go''"
    by (simp add: file_name_of_def path_parts_of_def)
  have ex: "allowed_extensions test_api = [''.md'']"
    by (simp add: test_api_def init_GitHubAPI_def)
  have no: "\<not> endswith (file_name_of ''repo-abc123/src/main.go'') ''.md''"
    by (simp add: fn endswith_def)
  have h2: "\<forall>ext \<in> set (allowed_extensions test_api).
      \<not> endswith (file_name_of ''repo-abc123/src/main.go'') ext"
    using no by (simp add: ex)
  from ineligible_skipped [OF h1 h2] h1 ex no fn show ?thesis by blast
qed




text \<open>
  C4. For an entry whose fetch fails with a request error (an exception of the HTTP library
  or a status from 400 to 599, a 404 for one) the result is the empty string, not an
  exception. If no other task raises, \<open>scrape_code\<close> returns, its buffer is the concatenation
  of the fragments of the other entries in completion order, and the script prints the elapsed
  time and writes that buffer: the failed file is left out and no error is reported.
\<close>

theorem failed_fetch_omitted:
  assumes sep: "CHR ''/'' \<in> set path"
    and ext: "\<exists>ext \<in> set (allowed_extensions g). endswith (file_name_of path) ext"
    and ff: "fetch_fails w g path"
  shows "scrape_code_for_file w g path = (Inr [], [url_of g path])
    \<and> (get_all_file_paths w g = (Inr file_paths, reqs)
        \<and> mset (completion_order w (length file_paths)) = mset [0..<length file_paths]
        \<and> (\<forall>q \<in> set file_paths. q \<noteq> path \<longrightarrow> \<not> isl (fst (scrape_code_for_file w g q)))
       \<longrightarrow> fst (scrape_code w g) =
             Inr (concat (map (fragment_of w g)
                    (filter (\<lambda>q. q \<noteq> path) (as_completed w file_paths))))
         \<and> run_with w g =
             \<lparr> printed = [''Scraping took '' @ elapsed w @ ''s''],
               scraped_txt = Some (concat (map (fragment_of w g)
                    (filter (\<lambda>q. q \<noteq> path) (as_completed w file_paths)))),
               requested = snd (scrape_code w g) \<rparr>)"
proof -
  have el: "eligible g path" using ext by (simp add: eligible_iff)
  have 1: "scrape_code_for_file w g path = (Inr [], [url_of g path])"
    using sep el ff by (rule scrape_fetch_failed)
  have 2: "fst (scrape_code w g) =
             Inr (concat (map (fragment_of w g)
                    (filter (\<lambda>q. q \<noteq> path) (as_completed w file_paths))))
         \<and> run_with w g =
             \<lparr> printed = [''Scraping took '' @ elapsed w @ ''s''],
               scraped_txt = Some (concat (map (fragment_of w g)
                    (filter (\<lambda>q. q \<noteq> path) (as_completed w file_paths)))),
               requested = snd (scrape_code w g) \<rparr>"
    if paths: "get_all_file_paths w g = (Inr file_paths, reqs)"
      and order: "mset (completion_order w (length file_paths)) = mset [0..<length file_paths]"
      and others: "\<forall>q \<in> set file_paths. q \<noteq> path \<longrightarrow> \<not> isl (fst (scrape_code_for_file w g q))"
  proof -
    have ok: "\<forall>p \<in> set file_paths. \<not> isl (fst (scrape_code_for_file w g p))"
      using others 1 by (metis fst_conv sum.disc(2))
    have e: "fragment_of w g path = []" by (simp add: fragment_of_def 1)
    have "concat (map (fragment_of w g) (filter (\<lambda>q. q \<noteq> path) (as_completed w file_paths)))
        = concat (map (fragment_of w g) (as_completed w file_paths))"
      by (rule concat_map_filter) (simp add: e)
    then have b: "fst (scrape_code w g) =
             Inr (concat (map (fragment_of w g)
                    (filter (\<lambda>q. q \<noteq> path) (as_completed w file_paths))))"
      using scrape_code_all_return [OF paths order ok] by simp
    from b run_with_Inr [OF b] show ?thesis by blast
  qed
  from 1 2 show ?thesis by blast
qed

theorem failed_fetch_omitted_witness:
  "fetch_fails gone_world test_api ''repo-abc123/GONE.md''
   \<and> scrape_code_for_file gone_world test_api ''repo-abc123/GONE.md''
       = (Inr [], [''https://raw.githubusercontent.com/o/r/main/GONE.md''])
   \<and> run_with gone_world test_api =
       \<lparr> printed = [''Scraping took 0.001s''],
         scraped_txt = Some ([CHR 0x0A, CHR 0x22]
            @ ''https://raw.githubusercontent.com/o/r/main/README.md''
            @ [CHR 0x22] @ '' starts here'' @ [CHR 0x0A] @ ''hello''
            @ [CHR 0x0A, CHR 0x22] @ ''README.md'' @ [CHR 0x22] @ '' ends here'' @ [CHR 0x0A]),
         requested = [''https://api.github.com/repos/o/r/zipball/main'',
                      ''https://api.github.com/repos/o/r/zipball/main'',
                      ''https://raw.githubusercontent.com/o/r/main/README.md'',
                      ''https://raw.githubusercontent.com/o/r/main/GONE.md''] \<rparr>"
proof -
  let ?p = "''repo-abc123/GONE.md''"
  let ?zip = "''https://api.github.com/repos/o/r/zipball/main''"
  have h1: "CHR ''/'' \<in> set ?p" by simp
  have fn: "file_name_of ?p = ''GONE.md''" by (simp add: file_name_of_def path_parts_of_def)
  have h2: "\<exists>ext \<in> set (allowed_extensions test_api). endswith (file_name_of ?p) ext"
    by (simp add: test_api_exts fn endswith_def)
  have u: "url_of test_api ?p = ''https://raw.githubusercontent.com/o/r/main/GONE.md''"
    by (simp add: url_of_def raw_url_def path_parts_of_def test_api_def init_GitHubAPI_def)
  have ff: "fetch_fails gone_world test_api ?p"
    by (simp add: fetch_fails_def u gone_world_def readme_raw_def reply_def)
  have paths: "get_all_file_paths gone_world test_api = (Inr gone_entries, [?zip, ?zip])"
    unfolding gone_world_def by (rule listing_paths)
  have order: "mset (completion_order gone_world (length gone_entries))
      = mset [0..<length gone_entries]"
    unfolding gone_world_def by (rule test_world_order)
  have a: "scrape_code_for_file gone_world test_api ''repo-abc123/README.md'' =
      (Inr ([CHR 0x0A, CHR 0x22] @ ''https://raw.githubusercontent.com/o/r/main/README.md''
            @ [CHR 0x22] @ '' starts here'' @ [CHR 0x0A] @ ''hello''
            @ [CHR 0x0A, CHR 0x22] @ ''README.md'' @ [CHR 0x22] @ '' ends here'' @ [CHR 0x0A]),
       [''https://raw.githubusercontent.com/o/r/main/README.md''])"
    unfolding gone_world_def by (rule readme_scraped)
  have others: "\<forall>q \<in> set gone_entries. q \<noteq> ?p \<longrightarrow>
      \<not> isl (fst (scrape_code_for_file gone_world test_api q))"
    by (simp add: gone_entries_def a)
  note inst = failed_fetch_omitted [OF h1 h2 ff, of gone_entries "[?zip, ?zip]"]
  from inst have c1: "scrape_code_for_file gone_world test_api ?p
       = (Inr [], [''https://raw.githubusercontent.com/o/r/main/GONE.md''])"
    unfolding u by blast
  have ac: "as_completed gone_world gone_entries = [?p, ''repo-abc123/README.md'']"
    by (simp add: as_completed_def gone_world_def test_world_def gone_entries_def upt_rec)
  have reqs: "snd (scrape_code gone_world test_api) =
      [?zip, ?zip, ''https://raw.githubusercontent.com/o/r/main/README.md'',
       ''https://raw.githubusercontent.com/o/r/main/GONE.md'']"
    by (simp add: scrape_code_paths [OF paths] gone_entries_def a c1)
  have el: "elapsed gone_world = ''0.001''" by (simp add: gone_world_def)
  from inst paths order others
  have "run_with gone_world test_api =
             \<lparr> printed = [''Scraping took '' @ elapsed gone_world @ ''s''],
               scraped_txt = Some (concat (map (fragment_of gone_world test_api)
                    (filter (\<lambda>q. q \<noteq> ?p) (as_completed gone_world gone_entries)))),
               requested = snd (scrape_code gone_world test_api) \<rparr>"
    by blast
  then have c2: "run_with gone_world test_api =
       \<lparr> printed = [''Scraping took 0.001s''],
         scraped_txt = Some ([CHR 0x0A, CHR 0x22]
            @ ''https://raw.githubusercontent.com/o/r/main/README.md''
            @ [CHR 0x22] @ '' starts here'' @ [CHR 0x0A] @ ''hello''
            @ [CHR 0x0A, CHR 0x22] @ ''README.md'' @ [CHR 0x22] @ '' ends here'' @ [CHR 0x0A]),
         requested = [?zip, ?zip, ''https://raw.githubusercontent.com/o/r/main/README.md'',
                      ''https://raw.githubusercontent.com/o/r/main/GONE.md''] \<rparr>"
    by (simp add: ac reqs fragment_of_def a el)
  show ?thesis by (intro conjI ff c1 c2)
qed

text \<open>
  C5. If locating the archive fails, or downloading it, or reading it as a zip container,
  with an exception \<open>e\<close>, then \<open>scrape_code\<close> raises \<open>e\<close> and the script prints
  \<^verbatim>\<open>An error occurred: \<close> followed by \<^verbatim>\<open>str(e)\<close>, writes no file, and has made no request but
  those for the archive.
\<close>

theorem archive_failure_aborts:
  assumes "fst (get_archive_url w g) = Inl e
     \<or> (\<exists>u. fst (get_archive_url w g) = Inr u \<and> fst (make_request w u) = Inl e)
     \<or> (\<exists>u resp. fst (get_archive_url w g) = Inr u \<and> fst (make_request w u) = Inr resp
            \<and> zip_filenames w (content resp) = Inl e)"
  shows "fst (scrape_code w g) = Inl e
    \<and> run_with w g = \<lparr> printed = [''An error occurred: '' @ str_exc w e],
          scraped_txt = None, requested = snd (get_all_file_paths w g) \<rparr>"
proof -
  have "fst (get_all_file_paths w g) = Inl e"
    using assms
    by (cases "get_archive_url w g")
       (auto simp: get_all_file_paths_def split: sum.splits prod.splits)
  from run_with_archive_failure [OF this] show ?thesis by simp
qed

theorem archive_failure_aborts_witness:
  "run_with (test_world not_found_session readme_raw (Inr readme_entries)) test_api
     = \<lparr> printed = [''An error occurred: error''], scraped_txt = None,
         requested = [''https://api.github.com/repos/o/r/zipball/main''] \<rparr>
   \<and> run_with (test_world redirect_session readme_raw (Inr readme_entries)) test_api
     = \<lparr> printed = [''An error occurred: error''], scraped_txt = None,
         requested = [''https://api.github.com/repos/o/r/zipball/main'',
                      ''https://codeload.github.com/o/r/zip/main''] \<rparr>
   \<and> run_with (test_world archive_ok readme_raw (Inl BadZipFile)) test_api
     = \<lparr> printed = [''An error occurred: error''], scraped_txt = None,
         requested = [''https://api.github.com/repos/o/r/zipball/main'',
                      ''https://api.github.com/repos/o/r/zipball/main''] \<rparr>
   \<and> fst (scrape_code (test_world not_found_session readme_raw (Inr readme_entries)) test_api)
     = Inl (HTTPError 404)
   \<and> fst (scrape_code (test_world redirect_session readme_raw (Inr readme_entries)) test_api)
     = Inl (HTTPError 500)
   \<and> fst (scrape_code (test_world archive_ok readme_raw (Inl BadZipFile)) test_api)
     = Inl BadZipFile"
proof -
  let ?W1 = "test_world not_found_session readme_raw (Inr readme_entries)"
  let ?W2 = "test_world redirect_session readme_raw (Inr readme_entries)"
  let ?W3 = "test_world archive_ok readme_raw (Inl BadZipFile)"
  have u1: "get_archive_url ?W1 test_api
      = (Inl (HTTPError 404), [''https://api.github.com/repos/o/r/zipball/main''])"
    by (simp add: get_archive_url_def make_request_def raise_for_status_def Let_def
        test_api_zipball not_found_session_def reply_def)
  have u2: "get_archive_url ?W2 test_api
      = (Inr ''https://codeload.github.com/o/r/zip/main'',
         [''https://api.github.com/repos/o/r/zipball/main''])"
    by (simp add: get_archive_url_def make_request_def raise_for_status_def Let_def
        test_api_zipball redirect_session_def reply_def)
  have m2: "make_request ?W2 ''https://codeload.github.com/o/r/zip/main''
      = (Inl (HTTPError 500), [''https://codeload.github.com/o/r/zip/main''])"
    by (simp add: make_request_def raise_for_status_def redirect_session_def reply_def)
  have u3: "get_archive_url ?W3 test_api
      = (Inr ''https://api.github.com/repos/o/r/zipball/main'',
         [''https://api.github.com/repos/o/r/zipball/main''])"
    by (simp add: get_archive_url_def make_request_def raise_for_status_def Let_def
        test_api_zipball archive_ok_def reply_def)
  have m3: "make_request ?W3 ''https://api.github.com/repos/o/r/zipball/main''
      = (Inr (reply 200 Map.empty ''PK''), [''https://api.github.com/repos/o/r/zipball/main''])"
    by (simp add: make_request_def raise_for_status_def archive_ok_def reply_def)
  have z3: "zip_filenames ?W3 (content (reply 200 Map.empty ''PK'')) = Inl BadZipFile"
    by simp
  have h1: "fst (get_archive_url ?W1 test_api) = Inl (HTTPError 404)
     \<or> (\<exists>u. fst (get_archive_url ?W1 test_api) = Inr u \<and> fst (make_request ?W1 u) = Inl (HTTPError 404))
     \<or> (\<exists>u resp. fst (get_archive_url ?W1 test_api) = Inr u \<and> fst (make_request ?W1 u) = Inr resp
            \<and> zip_filenames ?W1 (content resp) = Inl (HTTPError 404))"
    by (simp add: u1)
  have h2: "fst (get_archive_url ?W2 test_api) = Inl (HTTPError 500)
     \<or> (\<exists>u. fst (get_archive_url ?W2 test_api) = Inr u \<and> fst (make_request ?W2 u) = Inl (HTTPError 500))
     \<or> (\<exists>u resp. fst (get_archive_url ?W2 test_api) = Inr u \<and> fst (make_request ?W2 u) = Inr resp
            \<and> zip_filenames ?W2 (content resp) = Inl (HTTPError 500))"
    by (simp add: u2 m2)
  have h3: "fst (get_archive_url ?W3 test_api) = Inl BadZipFile
     \<or> (\<exists>u. fst (get_archive_url ?W3 test_api) = Inr u \<and> fst (make_request ?W3 u) = Inl BadZipFile)
     \<or> (\<exists>u resp. fst (get_archive_url ?W3 test_api) = Inr u \<and> fst (make_request ?W3 u) = Inr resp
            \<and> zip_filenames ?W3 (content resp) = Inl BadZipFile)"
    using z3 by (simp add: u3 m3)
  have r1: "snd (get_all_file_paths ?W1 test_api) = [''https://api.github.com/repos/o/r/zipball/main'']"
    by (simp add: get_all_file_paths_def u1)
  have r2: "snd (get_all_file_paths ?W2 test_api) = [''https://api.github.com/repos/o/r/zipball/main'',
                      ''https://codeload.github.com/o/r/zip/main'']"
    by (simp add: get_all_file_paths_def u2 m2)
  have r3: "snd (get_all_file_paths ?W3 test_api) = [''https://api.github.com/repos/o/r/zipball/main'',
                      ''https://api.github.com/repos/o/r/zipball/main'']"
    by (simp add: get_all_file_paths_def u3 m3)
  from archive_failure_aborts [OF h1] archive_failure_aborts [OF h2] archive_failure_aborts [OF h3]
  show ?thesis by (simp add: r1 r2 r3)
qed

text \<open>
  C6. \<open>get_archive_url\<close> makes one request, a GET of the zipball endpoint of branch
  \<^verbatim>\<open>main\<close>. An exception raised by the request propagates; a status that
  \<^verbatim>\<open>raise_for_status\<close> rejects (400 to 599) raises \<^verbatim>\<open>HTTPError\<close> at once, before the
  status is looked at; a response with status 302 that carries a \<^verbatim>\<open>Location\<close> header gives
  the value of that header; every other response that is not rejected gives the endpoint URL
  itself.
\<close>

theorem archive_url_cases:
  "snd (get_archive_url w g) = [zipball_url g]
   \<and> zipball_url g = ''https://api.github.com/repos/'' @ owner g @ ''/'' @ repo g @ ''/zipball/main''
   \<and> (session_get w (zipball_url g) = Inl e \<longrightarrow> fst (get_archive_url w g) = Inl e)
   \<and> (session_get w (zipball_url g) = Inr r \<and> 400 \<le> status_code r \<and> status_code r < 600
        \<longrightarrow> fst (get_archive_url w g) = Inl (HTTPError (status_code r)))
   \<and> (session_get w (zipball_url g) = Inr r \<and> status_code r = 302
        \<and> headers r ''Location'' = Some loc
        \<longrightarrow> fst (get_archive_url w g) = Inr loc)
   \<and> (session_get w (zipball_url g) = Inr r \<and> \<not> (400 \<le> status_code r \<and> status_code r < 600)
        \<and> status_code r \<noteq> 302
        \<longrightarrow> fst (get_archive_url w g) = Inr (zipball_url g))"
  by (auto simp: get_archive_url_def make_request_def raise_for_status_def Let_def
      zipball_url_def BASE_URL_def split: sum.splits option.splits)

theorem archive_url_cases_witness:
  "fst (get_archive_url (test_world refused_session readme_raw (Inr [])) test_api)
     = Inl (RequestException ''connection refused'')
   \<and> fst (get_archive_url (test_world not_found_session readme_raw (Inr [])) test_api)
     = Inl (HTTPError 404)
   \<and> fst (get_archive_url (test_world redirect_session readme_raw (Inr [])) test_api)
     = Inr ''https://codeload.github.com/o/r/zip/main''
   \<and> fst (get_archive_url readme_world test_api)
     = Inr ''https://api.github.com/repos/o/r/zipball/main''
   \<and> snd (get_archive_url readme_world test_api)
     = [''https://api.github.com/repos/o/r/zipball/main'']"
proof -
  let ?W = "\<lambda>sess. test_world sess readme_raw (Inr [])"
  have a: "session_get (?W refused_session) (zipball_url test_api)
      = Inl (RequestException ''connection refused'')"
    by (simp add: refused_session_def)
  have b: "session_get (?W not_found_session) (zipball_url test_api)
        = Inr (reply 404 Map.empty ''Not Found'')
      \<and> 400 \<le> status_code (reply 404 Map.empty ''Not Found'')
      \<and> status_code (reply 404 Map.empty ''Not Found'') < 600"
    by (simp add: not_found_session_def reply_def)
  have c: "session_get (?W redirect_session) (zipball_url test_api)
        = Inr (reply 302 [''Location'' \<mapsto> ''https://codeload.github.com/o/r/zip/main''] [])
      \<and> status_code (reply 302 [''Location'' \<mapsto> ''https://codeload.github.com/o/r/zip/main''] []) = 302
      \<and> headers (reply 302 [''Location'' \<mapsto> ''https://codeload.github.com/o/r/zip/main''] [])
          ''Location'' = Some ''https://codeload.github.com/o/r/zip/main''"
    by (simp add: redirect_session_def reply_def test_api_zipball)
  have d: "session_get readme_world (zipball_url test_api) = Inr (reply 200 Map.empty ''PK'')
      \<and> \<not> (400 \<le> status_code (reply 200 Map.empty ''PK'')
            \<and> status_code (reply 200 Map.empty ''PK'') < 600)
      \<and> status_code (reply 200 Map.empty ''PK'') \<noteq> 302"
    by (simp add: readme_world_def archive_ok_def reply_def)
  have 1: "fst (get_archive_url (?W refused_session) test_api)
      = Inl (RequestException ''connection refused'')"
    using archive_url_cases [where w = "?W refused_session" and g = test_api
        and e = "RequestException ''connection refused''"] a
    by blast
  have 2: "fst (get_archive_url (?W not_found_session) test_api) = Inl (HTTPError 404)"
    using archive_url_cases [where w = "?W not_found_session" and g = test_api
        and r = "reply 404 Map.empty ''Not Found''"] b
    by (simp add: reply_def)
  have 3: "fst (get_archive_url (?W redirect_session) test_api)
      = Inr ''https://codeload.github.com/o/r/zip/main''"
    using archive_url_cases [where w = "?W redirect_session" and g = test_api
        and r = "reply 302 [''Location'' \<mapsto> ''https://codeload.github.com/o/r/zip/main''] []"
        and loc = "''https://codeload.github.com/o/r/zip/main''"] c
    by blast
  have 4: "fst (get_archive_url readme_world test_api)
      = Inr ''https://api.github.com/repos/o/r/zipball/main''"
    using archive_url_cases [where w = readme_world and g = test_api
        and r = "reply 200 Map.empty ''PK''"] d
    unfolding test_api_zipball by blast
  have 5: "snd (get_archive_url readme_world test_api)
     = [''https://api.github.com/repos/o/r/zipball/main'']"
    using archive_url_cases [where w = readme_world and g = test_api]
    unfolding test_api_zipball by blast
  show ?thesis by (intro conjI 1 2 3 4 5)
qed

text \<open>
  The status alone does not decide the 302 case: on a response with status 302 and no
  \<^verbatim>\<open>Location\<close> header the lookup \<^verbatim>\<open>response.headers['Location']\<close> raises KeyError, no URL
  is returned, and the script stops with the error printed.
\<close>

theorem archive_url_cases_counterexample:
  "session_get (test_world bare_redirect_session readme_raw (Inr readme_entries))
       (zipball_url test_api) = Inr (reply 302 Map.empty [])
   \<and> status_code (reply 302 Map.empty []) = 302
   \<and> headers (reply 302 Map.empty []) ''Location'' = None
   \<and> get_archive_url (test_world bare_redirect_session readme_raw (Inr readme_entries)) test_api
       = (Inl (KeyError ''Location''), [''https://api.github.com/repos/o/r/zipball/main''])
   \<and> run_with (test_world bare_redirect_session readme_raw (Inr readme_entries)) test_api
       = \<lparr> printed = [''An error occurred: error''], scraped_txt = None,
           requested = [''https://api.github.com/repos/o/r/zipball/main''] \<rparr>"
proof -
  let ?W = "test_world bare_redirect_session readme_raw (Inr readme_entries)"
  have a: "session_get ?W (zipball_url test_api) = Inr (reply 302 Map.empty [])"
    by (simp add: bare_redirect_session_def)
  have b: "status_code (reply 302 Map.empty []) = 302" by (simp add: reply_def)
  have c: "headers (reply 302 Map.empty []) ''Location'' = None" by (simp add: reply_def)
  have d: "get_archive_url ?W test_api
       = (Inl (KeyError ''Location''), [''https://api.github.com/repos/o/r/zipball/main''])"
    by (simp add: get_archive_url_def make_request_def raise_for_status_def Let_def
        test_api_zipball bare_redirect_session_def reply_def)
  have e: "fst (get_all_file_paths ?W test_api) = Inl (KeyError ''Location'')"
    and r: "snd (get_all_file_paths ?W test_api) = [''https://api.github.com/repos/o/r/zipball/main'']"
    by (simp_all add: get_all_file_paths_def d)
  have f: "run_with ?W test_api
       = \<lparr> printed = [''An error occurred: error''], scraped_txt = None,
           requested = [''https://api.github.com/repos/o/r/zipball/main''] \<rparr>"
    using run_with_archive_failure [OF e] by (simp add: r)
  show ?thesis by (intro conjI a b c d f)
qed

text \<open>
  C7. The scenario: the archive lists \<^verbatim>\<open>repo-abc123/README.md\<close> and
  \<^verbatim>\<open>repo-abc123/src/main.go\<close>, the allow-list is \<^verbatim>\<open>[".md"]\<close>, and the fetch of
  \<^verbatim>\<open>README.md\<close> succeeds. Whichever of the two futures completes first, the buffer is exactly
  the fragment of \<^verbatim>\<open>README.md\<close>, that fragment is the only non-empty one collected, and the
  only request after those for the archive is the one for \<^verbatim>\<open>README.md\<close>: \<^verbatim>\<open>main.go\<close> gives
  the empty string without a request.
\<close>

theorem readme_only_scenario:
  assumes paths: "get_all_file_paths w g =
      (Inr [''repo-abc123/README.md'', ''repo-abc123/src/main.go''], reqs)"
    and exts: "allowed_extensions g = [''.md'']"
    and order: "mset (completion_order w 2) = mset [0, 1]"
    and fetch: "fetch_succeeds w g ''repo-abc123/README.md'' r"
  shows "scrape_code w g =
      (Inr ([CHR 0x0A, CHR 0x22] @ ''https://raw.githubusercontent.com/'' @ owner g @ ''/''
              @ repo g @ ''/main/README.md'' @ [CHR 0x22] @ '' starts here'' @ [CHR 0x0A]
            @ rtext r
            @ [CHR 0x0A, CHR 0x22] @ ''README.md'' @ [CHR 0x22] @ '' ends here'' @ [CHR 0x0A]),
       reqs @ [''https://raw.githubusercontent.com/'' @ owner g @ ''/'' @ repo g
                 @ ''/main/README.md''])
    \<and> scrape_code_for_file w g ''repo-abc123/src/main.go'' = (Inr [], [])
    \<and> (\<exists>fs. fragments (completed_outcomes w g
                [''repo-abc123/README.md'', ''repo-abc123/src/main.go'']) = Inr fs
          \<and> filter (\<lambda>s. s \<noteq> []) fs = [fragment_of w g ''repo-abc123/README.md''])"
proof -
  let ?a = "''repo-abc123/README.md''" and ?b = "''repo-abc123/src/main.go''"
  let ?url = "''https://raw.githubusercontent.com/'' @ owner g @ ''/'' @ repo g @ ''/main/README.md''"
  let ?frag = "[CHR 0x0A, CHR 0x22] @ ?url @ [CHR 0x22] @ '' starts here'' @ [CHR 0x0A]
            @ rtext r
            @ [CHR 0x0A, CHR 0x22] @ ''README.md'' @ [CHR 0x22] @ '' ends here'' @ [CHR 0x0A]"
  have a: "scrape_code_for_file w g ?a = (Inr ?frag, [?url])"
    using scrape_fetched [OF _ readme_eligible [OF exts] fetch]
    by (simp add: url_of_readme file_name_of_readme start_marker_def end_marker_def
        newline_def dquote_def)
  have b: "scrape_code_for_file w g ?b = (Inr [], [])"
    using scrape_ineligible [OF _ main_go_ineligible [OF exts]] by simp
  have fa: "fragment_of w g ?a = ?frag" by (simp add: fragment_of_def a)
  have fb: "fragment_of w g ?b = []" by (simp add: fragment_of_def b)
  have order': "mset (completion_order w (length [?a, ?b])) = mset [0..<length [?a, ?b]]"
    using order by (simp add: numeral_2_eq_2)
  have "mset (as_completed w [?a, ?b]) = mset [?a, ?b]"
    using order' by (rule mset_as_completed)
  then have cases: "as_completed w [?a, ?b] = [?a, ?b] \<or> as_completed w [?a, ?b] = [?b, ?a]"
    by (rule mset_pair_cases)
  have ok: "\<forall>p \<in> set [?a, ?b]. \<not> isl (fst (scrape_code_for_file w g p))"
    by (simp add: a b)
  have "fst (scrape_code w g) = Inr (concat (map (fragment_of w g) (as_completed w [?a, ?b])))"
    using paths order' ok by (rule scrape_code_all_return)
  with cases have buf: "fst (scrape_code w g) = Inr ?frag"
    by (auto simp: fa fb)
  have "snd (scrape_code w g) = reqs @ [?url]"
    by (simp add: scrape_code_paths [OF paths] a b)
  with buf have 1: "scrape_code w g = (Inr ?frag, reqs @ [?url])"
    by (metis prod.collapse)
  have outs: "completed_outcomes w g [?a, ?b] = map Inr (map (fragment_of w g) (as_completed w [?a, ?b]))"
    using cases by (auto simp: completed_outcomes_map [OF order'] a b fa fb)
  have nonempty: "?frag \<noteq> []" by simp
  have "filter (\<lambda>s. s \<noteq> []) (map (fragment_of w g) (as_completed w [?a, ?b])) = [fragment_of w g ?a]"
    using cases nonempty by (auto simp: fa fb)
  with outs have 3: "\<exists>fs. fragments (completed_outcomes w g [?a, ?b]) = Inr fs
          \<and> filter (\<lambda>s. s \<noteq> []) fs = [fragment_of w g ?a]"
    by (metis fragments_map_Inr)
  have res: "scrape_code w g =
      (Inr ([CHR 0x0A, CHR 0x22] @ ''https://raw.githubusercontent.com/'' @ owner g @ ''/''
              @ repo g @ ''/main/README.md'' @ [CHR 0x22] @ '' starts here'' @ [CHR 0x0A]
            @ rtext r
            @ [CHR 0x0A, CHR 0x22] @ ''README.md'' @ [CHR 0x22] @ '' ends here'' @ [CHR 0x0A]),
       reqs @ [''https://raw.githubusercontent.com/'' @ owner g @ ''/'' @ repo g
                 @ ''/main/README.md''])"
    using 1 by simp
  show ?thesis by (intro conjI res b 3)
qed

theorem readme_only_scenario_witness:
  "fetch_succeeds readme_world test_api ''repo-abc123/README.md'' (reply 200 Map.empty ''hello'')
   \<and> scrape_code readme_world test_api =
      (Inr ([CHR 0x0A, CHR 0x22] @ ''https://raw.githubusercontent.com/o/r/main/README.md''
            @ [CHR 0x22] @ '' starts here'' @ [CHR 0x0A] @ ''hello''
            @ [CHR 0x0A, CHR 0x22] @ ''README.md'' @ [CHR 0x22] @ '' ends here'' @ [CHR 0x0A]),
       [''https://api.github.com/repos/o/r/zipball/main'',
        ''https://api.github.com/repos/o/r/zipball/main'',
        ''https://raw.githubusercontent.com/o/r/main/README.md''])
   \<and> scrape_code_for_file readme_world test_api ''repo-abc123/src/main.go'' = (Inr [], [])"
proof -
  let ?zip = "''https://api.github.com/repos/o/r/zipball/main''"
  have paths: "get_all_file_paths readme_world test_api =
      (Inr [''repo-abc123/README.md'', ''repo-abc123/src/main.go''], [?zip, ?zip])"
    using readme_paths by (simp add: readme_entries_def)
  have order: "mset (completion_order readme_world 2) = mset [0, 1]"
    by (simp add: readme_world_def test_world_def upt_rec numeral_2_eq_2)
  note inst = readme_only_scenario [OF paths test_api_exts order readme_fetch]
  from inst have c1: "scrape_code readme_world test_api =
      (Inr ([CHR 0x0A, CHR 0x22] @ ''https://raw.githubusercontent.com/o/r/main/README.md''
            @ [CHR 0x22] @ '' starts here'' @ [CHR 0x0A] @ ''hello''
            @ [CHR 0x0A, CHR 0x22] @ ''README.md'' @ [CHR 0x22] @ '' ends here'' @ [CHR 0x0A]),
       [?zip, ?zip, ''https://raw.githubusercontent.com/o/r/main/README.md''])"
    by (simp add: test_api_def init_GitHubAPI_def reply_def)
  from inst have c2: "scrape_code_for_file readme_world test_api ''repo-abc123/src/main.go''
      = (Inr [], [])"
    by blast
  show ?thesis by (intro conjI readme_fetch c1 c2)
qed

text \<open>
  C8. For a path without \<^verbatim>\<open>/\<close>, the empty path included, \<^verbatim>\<open>pop(0)\<close> leaves the empty list
  and \<^verbatim>\<open>path_parts[-1]\<close> raises IndexError, which is not a \<^verbatim>\<open>RequestException\<close>, so
  \<^verbatim>\<open>_scrape_code_for_file\<close> raises it, having made no request. When the archive lists such
  a path, \<open>scrape_code\<close> raises the exception of a failed task, and the script prints the
  error and writes no file.
\<close>

theorem no_separator_aborts:
  assumes nosep: "CHR ''/'' \<notin> set path"
  shows "pop0 (py_split CHR ''/'' path) = Inr []
    \<and> last_item ([] :: string list) = Inl IndexError
    \<and> scrape_try_body w g path = (Inl IndexError, [])
    \<and> \<not> is_RequestException IndexError
    \<and> scrape_code_for_file w g path = (Inl IndexError, [])
    \<and> (get_all_file_paths w g = (Inr file_paths, reqs)
        \<and> mset (completion_order w (length file_paths)) = mset [0..<length file_paths]
        \<and> path \<in> set file_paths
       \<longrightarrow> (\<exists>e. fst (scrape_code w g) = Inl e
              \<and> (\<exists>q \<in> set file_paths. fst (scrape_code_for_file w g q) = Inl e)
              \<and> run_with w g =
                  \<lparr> printed = [''An error occurred: '' @ str_exc w e],
                    scraped_txt = None, requested = snd (scrape_code w g) \<rparr>))"
proof -
  have 1: "pop0 (py_split CHR ''/'' path) = Inr []"
    using nosep by (simp add: pop0_py_split tl_py_split_Nil)
  have 2: "last_item ([] :: string list) = Inl IndexError" by (simp add: last_item_def)
  have 3: "scrape_try_body w g path = (Inl IndexError, [])"
    by (simp add: scrape_try_body_def 1 2)
  have 4: "\<not> is_RequestException IndexError" by simp
  have 5: "scrape_code_for_file w g path = (Inl IndexError, [])"
    using nosep by (rule scrape_no_sep)
  have 6: "\<exists>e. fst (scrape_code w g) = Inl e
              \<and> (\<exists>q \<in> set file_paths. fst (scrape_code_for_file w g q) = Inl e)
              \<and> run_with w g =
                  \<lparr> printed = [''An error occurred: '' @ str_exc w e],
                    scraped_txt = None, requested = snd (scrape_code w g) \<rparr>"
    if paths: "get_all_file_paths w g = (Inr file_paths, reqs)"
      and order: "mset (completion_order w (length file_paths)) = mset [0..<length file_paths]"
      and mem: "path \<in> set file_paths"
  proof -
    have "isl (fst (scrape_code_for_file w g path))" by (simp add: 5)
    with paths order mem obtain e where e: "fst (scrape_code w g) = Inl e"
      "\<exists>q \<in> set file_paths. fst (scrape_code_for_file w g q) = Inl e"
      using scrape_code_some_raise by blast
    from e run_with_Inl [OF e(1)] show ?thesis by blast
  qed
  from 1 2 3 4 5 6 show ?thesis by blast
qed

theorem no_separator_aborts_witness:
  "CHR ''/'' \<notin> set ''LICENSE''
   \<and> scrape_code_for_file flat_world test_api ''LICENSE'' = (Inl IndexError, [])
   \<and> scrape_code_for_file flat_world test_api [] = (Inl IndexError, [])
   \<and> fst (scrape_code flat_world test_api) = Inl IndexError
   \<and> scraped_txt (run_with flat_world test_api) = None
   \<and> printed (run_with flat_world test_api) = [''An error occurred: error'']"
proof -
  let ?zip = "''https://api.github.com/repos/o/r/zipball/main''"
  have h: "CHR ''/'' \<notin> set ''LICENSE''" by simp
  have h0: "CHR ''/'' \<notin> set []" by simp
  have paths: "get_all_file_paths flat_world test_api = (Inr flat_entries, [?zip, ?zip])"
    unfolding flat_world_def by (rule listing_paths)
  have order: "mset (completion_order flat_world (length flat_entries))
      = mset [0..<length flat_entries]"
    unfolding flat_world_def by (rule test_world_order)
  have mem: "''LICENSE'' \<in> set flat_entries" by (simp add: flat_entries_def)
  have a: "fst (scrape_code_for_file flat_world test_api ''repo-abc123/README.md'') \<noteq> Inl e" for e
    unfolding flat_world_def by (simp add: readme_scraped)
  note inst = no_separator_aborts [OF h, of flat_world test_api flat_entries "[?zip, ?zip]"]
  from inst have c1: "scrape_code_for_file flat_world test_api ''LICENSE'' = (Inl IndexError, [])"
    by blast
  from no_separator_aborts [OF h0, of flat_world test_api]
  have c0: "scrape_code_for_file flat_world test_api [] = (Inl IndexError, [])"
    by blast
  from inst paths order mem
  obtain e where e: "fst (scrape_code flat_world test_api) = Inl e"
    "\<exists>q \<in> set flat_entries. fst (scrape_code_for_file flat_world test_api q) = Inl e"
    "run_with flat_world test_api =
        \<lparr> printed = [''An error occurred: '' @ str_exc flat_world e],
          scraped_txt = None, requested = snd (scrape_code flat_world test_api) \<rparr>"
    by blast
  have se: "str_exc flat_world x = ''error''" for x by (simp add: flat_world_def)
  from e(2) have "e = IndexError" by (simp add: flat_entries_def a c1)
  with e have c2: "fst (scrape_code flat_world test_api) = Inl IndexError"
    and c3: "scraped_txt (run_with flat_world test_api) = None"
    and c4: "printed (run_with flat_world test_api) = [''An error occurred: error'']"
    by (simp_all add: se)
  show ?thesis by (intro conjI h c1 c0 c2 c3 c4)
qed

text \<open>
  C9. A directory entry, a path ending with \<^verbatim>\<open>/\<close>, has the empty file name; when every
  allowed extension is non-empty the entry gives the empty string and no request is made.
\<close>

theorem directory_entry_skipped:
  assumes "path \<noteq> []" and "last path = CHR ''/''"
    and "\<forall>ext \<in> set (allowed_extensions g). ext \<noteq> []"
  shows "file_name_of path = [] \<and> scrape_code_for_file w g path = (Inr [], [])"
proof -
  have fn: "file_name_of path = []" using assms(1,2) by (rule file_name_of_dir)
  have sep: "CHR ''/'' \<in> set path" using assms(1,2) by (metis last_in_set)
  have "\<not> eligible g path"
    using assms(3) by (simp add: eligible_def fn list_ex_iff endswith_Nil_iff)
  with sep have "scrape_code_for_file w g path = (Inr [], [])" by (rule scrape_ineligible)
  with fn show ?thesis by simp
qed

theorem directory_entry_skipped_witness:
  "''repo-abc123/src/'' \<noteq> [] \<and> last ''repo-abc123/src/'' = CHR ''/''
   \<and> allowed_extensions test_api = [''.md'']
   \<and> file_name_of ''repo-abc123/src/'' = []
   \<and> scrape_code_for_file readme_world test_api ''repo-abc123/src/'' = (Inr [], [])"
proof -
  have h1: "''repo-abc123/src/'' \<noteq> []" by simp
  have h2: "last ''repo-abc123/src/'' = CHR ''/''" by simp
  have ex: "allowed_extensions test_api = [''.md'']"
    by (simp add: test_api_def init_GitHubAPI_def)
  have h3: "\<forall>ext \<in> set (allowed_extensions test_api). ext \<noteq> []"
    by (simp add: ex)
  from directory_entry_skipped [OF h1 h2 h3] h1 h2 ex show ?thesis by blast
qed

text \<open>
  C10. For an eligible entry whose fetch succeeds with empty text the result is not empty:
  it is the start marker line, an empty line and the end marker line. If no task raises,
  \<open>scrape_code\<close> returns a non-empty buffer of which this fragment is a contiguous part.
\<close>

theorem empty_file_included:
  assumes sep: "CHR ''/'' \<in> set path"
    and ext: "\<exists>ext \<in> set (allowed_extensions g). endswith (file_name_of path) ext"
    and fetch: "fetch_succeeds w g path r"
    and empty: "rtext r = []"
  shows "scrape_code_for_file w g path =
      (Inr ([CHR 0x0A, CHR 0x22] @ url_of g path @ [CHR 0x22] @ '' starts here'' @ [CHR 0x0A]
            @ [CHR 0x0A, CHR 0x22] @ file_name_of path @ [CHR 0x22] @ '' ends here'' @ [CHR 0x0A]),
       [url_of g path])
    \<and> fragment_of w g path \<noteq> []
    \<and> (get_all_file_paths w g = (Inr file_paths, reqs)
        \<and> mset (completion_order w (length file_paths)) = mset [0..<length file_paths]
        \<and> path \<in> set file_paths
        \<and> (\<forall>p \<in> set file_paths. \<not> isl (fst (scrape_code_for_file w g p)))
       \<longrightarrow> (\<exists>buf. fst (scrape_code w g) = Inr buf \<and> sublist (fragment_of w g path) buf
              \<and> buf \<noteq> []))"
proof -
  have el: "eligible g path" using ext by (simp add: eligible_iff)
  have eq: "scrape_code_for_file w g path =
     (Inr (start_marker (url_of g path) @ rtext r @ end_marker (file_name_of path)), [url_of g path])"
    using sep el fetch by (rule scrape_fetched)
  have 1: "scrape_code_for_file w g path =
      (Inr ([CHR 0x0A, CHR 0x22] @ url_of g path @ [CHR 0x22] @ '' starts here'' @ [CHR 0x0A]
            @ [CHR 0x0A, CHR 0x22] @ file_name_of path @ [CHR 0x22] @ '' ends here'' @ [CHR 0x0A]),
       [url_of g path])"
    by (simp add: eq empty start_marker_def end_marker_def newline_def dquote_def)
  have 2: "fragment_of w g path \<noteq> []" by (simp add: fragment_of_def 1)
  have 3: "\<exists>buf. fst (scrape_code w g) = Inr buf \<and> sublist (fragment_of w g path) buf \<and> buf \<noteq> []"
    if paths: "get_all_file_paths w g = (Inr file_paths, reqs)"
      and order: "mset (completion_order w (length file_paths)) = mset [0..<length file_paths]"
      and mem: "path \<in> set file_paths"
      and ok: "\<forall>p \<in> set file_paths. \<not> isl (fst (scrape_code_for_file w g p))"
  proof -
    let ?buf = "concat (map (fragment_of w g) (as_completed w file_paths))"
    have b: "fst (scrape_code w g) = Inr ?buf" using paths order ok by (rule scrape_code_all_return)
    have m: "path \<in> set (as_completed w file_paths)"
      using mem by (simp add: set_as_completed [OF order])
    then have s: "sublist (fragment_of w g path) ?buf" by (rule sublist_concat_map)
    from m 2 have "?buf \<noteq> []" by auto
    with b s show ?thesis by blast
  qed
  from 1 2 3 show ?thesis by blast
qed

theorem empty_file_included_witness:
  "fetch_succeeds empty_world test_api ''repo-abc123/README.md'' (reply 200 Map.empty [])
   \<and> rtext (reply 200 Map.empty []) = []
   \<and> scrape_code_for_file empty_world test_api ''repo-abc123/README.md'' =
      (Inr ([CHR 0x0A, CHR 0x22] @ ''https://raw.githubusercontent.com/o/r/main/README.md''
            @ [CHR 0x22] @ '' starts here'' @ [CHR 0x0A]
            @ [CHR 0x0A, CHR 0x22] @ ''README.md'' @ [CHR 0x22] @ '' ends here'' @ [CHR 0x0A]),
       [''https://raw.githubusercontent.com/o/r/main/README.md''])
   \<and> fragment_of empty_world test_api ''repo-abc123/README.md'' \<noteq> []
   \<and> (\<exists>buf. fst (scrape_code empty_world test_api) = Inr buf
         \<and> sublist (fragment_of empty_world test_api ''repo-abc123/README.md'') buf \<and> buf \<noteq> [])"
proof -
  let ?p = "''repo-abc123/README.md''"
  have h1: "CHR ''/'' \<in> set ?p" by simp
  have fetch: "fetch_succeeds empty_world test_api ?p (reply 200 Map.empty [])"
    by (simp add: fetch_succeeds_def test_api_readme_url empty_world_def empty_raw_def
        test_world_def reply_def)
  have empty: "rtext (reply 200 Map.empty []) = []" by (simp add: reply_def)
  have paths: "get_all_file_paths empty_world test_api =
     (Inr readme_entries, [''https://api.github.com/repos/o/r/zipball/main'',
                           ''https://api.github.com/repos/o/r/zipball/main''])"
    unfolding empty_world_def by (rule listing_paths)
  have order: "mset (completion_order empty_world (length readme_entries))
      = mset [0..<length readme_entries]"
    unfolding empty_world_def by (rule test_world_order)
  have mem: "?p \<in> set readme_entries" by (simp add: readme_entries_def)
  have a: "\<not> isl (fst (scrape_code_for_file empty_world test_api ?p))"
    using readme_served [of empty_world "[]"]
    by (simp add: empty_world_def empty_raw_def test_world_def)
  have ok: "\<forall>p \<in> set readme_entries. \<not> isl (fst (scrape_code_for_file empty_world test_api p))"
    using a by (simp add: readme_entries_def main_go_skipped)
  note inst = empty_file_included [OF h1 readme_ext fetch empty,
      of readme_entries "[''https://api.github.com/repos/o/r/zipball/main'',
                           ''https://api.github.com/repos/o/r/zipball/main'']"]
  from inst have c1: "scrape_code_for_file empty_world test_api ?p =
      (Inr ([CHR 0x0A, CHR 0x22] @ ''https://raw.githubusercontent.com/o/r/main/README.md''
            @ [CHR 0x22] @ '' starts here'' @ [CHR 0x0A]
            @ [CHR 0x0A, CHR 0x22] @ ''README.md'' @ [CHR 0x22] @ '' ends here'' @ [CHR 0x0A]),
       [''https://raw.githubusercontent.com/o/r/main/README.md''])"
    unfolding test_api_readme_url file_name_of_readme by blast
  from inst have c2: "fragment_of empty_world test_api ?p \<noteq> []" by blast
  from inst paths order mem ok
  have c3: "\<exists>buf. fst (scrape_code empty_world test_api) = Inr buf
         \<and> sublist (fragment_of empty_world test_api ?p) buf \<and> buf \<noteq> []"
    by blast
  show ?thesis by (intro conjI fetch empty c1 c2 c3)
qed

end
